theory Spec2Isabelle
  imports Complex_Main
begin

section \<open>JavaScript strings\<close>

text \<open>
  A JavaScript string is a sequence of UTF-16 code units; a code unit is modelled by its
  number.  \<open>js\<close> turns an ASCII literal into such a sequence.
\<close>

type_synonym jsstring = "nat list"

definition js :: "string \<Rightarrow> jsstring" where
  "js s = map of_char s"

text \<open>
  The class \<^verbatim>\<open>\s\<close> of a regular expression.  \<^verbatim>\<open>String.prototype.trim\<close> strips
  the same set (white space and line terminators) from both ends.
\<close>

definition isWhiteSpace :: "nat \<Rightarrow> bool" where
  "isWhiteSpace c \<longleftrightarrow>
     (9 \<le> c \<and> c \<le> 13) \<or> c = 32 \<or> c = 160 \<or> c = 5760 \<or> (8192 \<le> c \<and> c \<le> 8202) \<or>
     c = 8232 \<or> c = 8233 \<or> c = 8239 \<or> c = 8287 \<or> c = 12288 \<or> c = 65279"

definition trim :: "jsstring \<Rightarrow> jsstring" where
  "trim s = rev (dropWhile isWhiteSpace (rev (dropWhile isWhiteSpace s)))"

definition isUpperAZ :: "nat \<Rightarrow> bool" where
  "isUpperAZ c \<longleftrightarrow> 65 \<le> c \<and> c \<le> 90"

definition isLowerAZ :: "nat \<Rightarrow> bool" where
  "isLowerAZ c \<longleftrightarrow> 97 \<le> c \<and> c \<le> 122"

definition isDigit09 :: "nat \<Rightarrow> bool" where
  "isDigit09 c \<longleftrightarrow> 48 \<le> c \<and> c \<le> 57"

text \<open>
  \<^verbatim>\<open>toLowerCase\<close> and \<^verbatim>\<open>toUpperCase\<close> on the ASCII range.  Outside of it they follow
  the Unicode case tables, which are no part of the repository: a function that lower-cases
  arbitrary strings is a parameter (\<open>lc\<close>) of the definitions that need one, and
  \<open>asciiToLowerCase\<close> is what it does on ASCII strings.
\<close>

definition asciiLower :: "nat \<Rightarrow> nat" where
  "asciiLower c = (if isUpperAZ c then c + 32 else c)"

definition asciiUpper :: "nat \<Rightarrow> nat" where
  "asciiUpper c = (if isLowerAZ c then c - 32 else c)"

definition asciiToLowerCase :: "jsstring \<Rightarrow> jsstring" where
  "asciiToLowerCase s = map asciiLower s"

text \<open>Decimal digits of a number, as template literals print it.\<close>

function decimal :: "nat \<Rightarrow> jsstring" where
  "decimal n = (if n < 10 then [48 + n] else decimal (n div 10) @ [48 + n mod 10])"
  by pat_completeness auto
termination
  by (relation "measure (\<lambda>n. n)") auto

text \<open>
  A thrown value: an \<^verbatim>\<open>Error\<close> object with its \<^verbatim>\<open>name\<close> and \<^verbatim>\<open>message\<close>, or a value
  that is no \<^verbatim>\<open>Error\<close>.
\<close>

datatype thrown = ErrorObject (errorName: jsstring) (errorMessage: jsstring) | NonError

text \<open>\<^verbatim>\<open>error instanceof Error ? error.message : 'Unknown error'\<close>\<close>

definition messageOf :: "thrown \<Rightarrow> jsstring" where
  "messageOf e = (case e of ErrorObject n m \<Rightarrow> m | NonError \<Rightarrow> js ''Unknown error'')"


section \<open>Identity Normalizer: \<^verbatim>\<open>standardizeVendorName\<close> (src/lib/dataUtils.ts)\<close>

text \<open>The class of the code units U+200B to U+200D and U+FEFF, removed first.\<close>

definition isZeroWidth :: "nat \<Rightarrow> bool" where
  "isZeroWidth c \<longleftrightarrow> (8203 \<le> c \<and> c \<le> 8205) \<or> c = 65279"

text \<open>
  \<^verbatim>\<open>.replace(/\s+/g, ' ')\<close>: every maximal run of white space becomes one space.
  The flag says whether the previous code unit was white space.
\<close>

fun collapseWhitespace :: "bool \<Rightarrow> jsstring \<Rightarrow> jsstring" where
  "collapseWhitespace inRun [] = []"
| "collapseWhitespace inRun (c # cs) =
     (if isWhiteSpace c
      then (if inRun then collapseWhitespace True cs else 32 # collapseWhitespace True cs)
      else c # collapseWhitespace False cs)"

text \<open>The characters that \<^verbatim>\<open>/[^a-zA-Z0-9& -]/g\<close> leaves in place.\<close>

definition isBasicChar :: "nat \<Rightarrow> bool" where
  "isBasicChar c \<longleftrightarrow> isLowerAZ c \<or> isUpperAZ c \<or> isDigit09 c \<or> c = 38 \<or> c = 32 \<or> c = 45"

text \<open>The characters that stay and are no space: letters, digits, ampersand and hyphen.\<close>

definition isKept :: "nat \<Rightarrow> bool" where
  "isKept c \<longleftrightarrow> isLowerAZ c \<or> isUpperAZ c \<or> isDigit09 c \<or> c = 38 \<or> c = 45"

text \<open>The class \<^verbatim>\<open>\w\<close>.\<close>

definition isWordChar :: "nat \<Rightarrow> bool" where
  "isWordChar c \<longleftrightarrow> isLowerAZ c \<or> isUpperAZ c \<or> isDigit09 c \<or> c = 95"

text \<open>
  \<^verbatim>\<open>.replace(/\b\w/g, c => c.toUpperCase())\<close>: a word character that follows no word
  character is upper-cased.  The flag says whether the previous code unit was a word
  character.
\<close>

fun upperAtWordStart :: "bool \<Rightarrow> jsstring \<Rightarrow> jsstring" where
  "upperAtWordStart afterWord [] = []"
| "upperAtWordStart afterWord (c # cs) =
     (if isWordChar c
      then (if afterWord then c else asciiUpper c) # upperAtWordStart True cs
      else c # upperAtWordStart False cs)"

text \<open>
  \<open>standardizeVendorName\<close>.  The argument is \<open>None\<close> for \<^verbatim>\<open>null\<close>, \<^verbatim>\<open>undefined\<close> or a value
  that is no string.  \<^verbatim>\<open>String.prototype.normalize('NFKC')\<close> works from the Unicode
  tables and is the parameter \<open>nfkc\<close>; on an ASCII string it is the identity.  The case
  conversions run after the character filter, on ASCII only.
\<close>

definition standardizeVendorName :: "(jsstring \<Rightarrow> jsstring) \<Rightarrow> jsstring option \<Rightarrow> jsstring" where
  "standardizeVendorName nfkc vendorName =
     (case vendorName of
        None \<Rightarrow> []
      | Some s \<Rightarrow>
          if s = [] then []
          else upperAtWordStart False
                 (asciiToLowerCase
                   (trim
                     (filter isBasicChar
                       (collapseWhitespace False
                         (filter (\<lambda>c. c \<noteq> 46)
                           (filter (\<lambda>c. \<not> isZeroWidth c) (nfkc s))))))))"


section \<open>Override table: \<^verbatim>\<open>enhancedVendorNormalization\<close> (src/app/dashboard/page.tsx)\<close>

definition normalizationRules :: "(jsstring \<times> jsstring) list" where
  "normalizationRules =
     [(js ''Trash Taxi Of Gallc'', js ''Trash Taxi Of Ga Llc''),
      (js ''Trash Taxi Of GA LLC'', js ''Trash Taxi Of Ga Llc''),
      (js ''Trash Taxi Of GA Llc'', js ''Trash Taxi Of Ga Llc''),
      (js ''WM Corporate Services Inc'', js ''Wm Corporate Services Inc''),
      (js ''WM CORPORATE SERVICES INC'', js ''Wm Corporate Services Inc''),
      (js ''Georgia Waste Systems LLC'', js ''Georgia Waste Systems Llc''),
      (js ''GEORGIA WASTE SYSTEMS LLC'', js ''Georgia Waste Systems Llc''),
      (js ''Valley Pallet And Crating LLC'', js ''Valley Pallet And Crating Llc''),
      (js ''VALLEY PALLET AND CRATING LLC'', js ''Valley Pallet And Crating Llc'')]"

text \<open>The loop over the rules: the first variant equal to the name wins, then \<^verbatim>\<open>break\<close>.\<close>

fun applyRules :: "(jsstring \<times> jsstring) list \<Rightarrow> jsstring \<Rightarrow> jsstring" where
  "applyRules [] normalized = normalized"
| "applyRules ((variant, canonical) # rules) normalized =
     (if normalized = variant then canonical else applyRules rules normalized)"

definition enhancedVendorNormalization :: "(jsstring \<Rightarrow> jsstring) \<Rightarrow> jsstring option \<Rightarrow> jsstring" where
  "enhancedVendorNormalization nfkc name =
     (case name of
        None \<Rightarrow> js ''Unknown''
      | Some n \<Rightarrow>
          if n = [] \<or> trim n = [] then js ''Unknown''
          else applyRules normalizationRules (standardizeVendorName nfkc (Some (trim n))))"


section \<open>Storage: \<^verbatim>\<open>InvoiceStorageService\<close> (src/lib/invoiceStorage.ts)\<close>

text \<open>
  The parts of the extracted payload that the service reads, with \<open>None\<close> for a field
  that is absent (\<^verbatim>\<open>undefined\<close>); the rest of the payload is carried along unread.  The
  payload has the type \<^verbatim>\<open>any\<close> in the code; the fields that are read have here the types
  that \<open>StoredInvoiceData\<close> declares for the index fields they are copied to (a document
  number that is not a string is outside this model).
\<close>

record 'a ExtractedInvoice =
  invoice_number :: "jsstring option"
  invoice_date :: "jsstring option"
  total_amount :: "rat option"
  company_name :: "jsstring option"
  processing_metadata :: "'a option"
  payload :: 'a

text \<open>
  \<open>StoredInvoiceData\<close>.  A time stamp is the server's clock at the write.  The field
  \<^verbatim>\<open>id\<close> is \<open>id'\<close> here.
\<close>

record 'a StoredInvoiceData =
  id' :: jsstring
  userId :: jsstring
  filename :: jsstring
  originalFilename :: jsstring
  fileUrl :: "jsstring option"
  fileSize :: "nat option"
  invoiceNumber :: "jsstring option"
  totalAmount :: "rat option"
  invoiceDate :: "jsstring option"
  vendorName :: "jsstring option"
  processingMetadata :: "'a option"
  extractedData :: "'a ExtractedInvoice"
  createdAt :: nat
  updatedAt :: nat

text \<open>The three queries that \<open>findExistingInvoice\<close> builds.\<close>

datatype query =
    ByInvoiceNumber jsstring jsstring
  | ByUser jsstring
  | ByFilename jsstring jsstring

text \<open>
  The storage collaborator: whether \<^verbatim>\<open>getFirebaseDB()\<close> returns a database, the documents
  of the collection in the order in which queries return them, and what the storage layer
  does beyond the code of this repository: a read of a query or a write of a document may
  throw (\<open>readFault\<close>, \<open>writeFault\<close>), \<^verbatim>\<open>updateDoc\<close> throws \<open>notFound\<close> without a
  document, a query without an order clause returns the documents in the order of their ids
  (\<open>idBefore\<close>), and a write with \<^verbatim>\<open>{ merge: true }\<close> merges a written map into the
  stored one, field by field and recursively (\<open>mergeMaps\<close> for the payload and \<open>mergeMeta\<close>
  for the processing metadata, both from the stored and the written value).
\<close>

record 'a Firestore =
  dbReady :: bool
  documents :: "'a StoredInvoiceData list"
  readFault :: "query \<Rightarrow> thrown option"
  writeFault :: "'a StoredInvoiceData \<Rightarrow> thrown option"
  notFound :: thrown
  idBefore :: "jsstring \<Rightarrow> jsstring \<Rightarrow> bool"
  mergeMaps :: "'a ExtractedInvoice \<Rightarrow> 'a ExtractedInvoice \<Rightarrow> 'a ExtractedInvoice"
  mergeMeta :: "'a \<Rightarrow> 'a \<Rightarrow> 'a"

definition matches :: "query \<Rightarrow> 'a StoredInvoiceData \<Rightarrow> bool" where
  "matches q d =
     (case q of
        ByInvoiceNumber u n \<Rightarrow> userId d = u \<and> invoiceNumber d = Some n
      | ByUser u \<Rightarrow> userId d = u
      | ByFilename u f \<Rightarrow> userId d = u \<and> originalFilename d = f)"

text \<open>\<^verbatim>\<open>limit(1)\<close> is part of the queries by invoice number and by file name.\<close>

definition getDocs :: "'a Firestore \<Rightarrow> query \<Rightarrow> thrown + 'a StoredInvoiceData list" where
  "getDocs fs q =
     (case readFault fs q of
        Some e \<Rightarrow> Inl e
      | None \<Rightarrow>
          (case q of
             ByUser u \<Rightarrow> Inr (filter (matches q) (documents fs))
           | _ \<Rightarrow> Inr (take 1 (filter (matches q) (documents fs)))))"

definition notInitialized :: thrown where
  "notInitialized = ErrorObject (js ''Error'') (js ''Firebase Firestore not initialized'')"

text \<open>
  The loop over the owner's documents, with its early \<^verbatim>\<open>return\<close>.  \<open>lc\<close> is
  \<^verbatim>\<open>toLowerCase\<close>.
\<close>

fun scanInvoiceNumber ::
  "(jsstring \<Rightarrow> jsstring) \<Rightarrow> jsstring \<Rightarrow> 'a StoredInvoiceData list \<Rightarrow> 'a StoredInvoiceData option" where
  "scanInvoiceNumber lc n [] = None"
| "scanInvoiceNumber lc n (d # ds) =
     (case invoiceNumber d of
        None \<Rightarrow> scanInvoiceNumber lc n ds
      | Some m \<Rightarrow>
          if m \<noteq> [] \<and> trim (lc m) = trim (lc n) then Some d else scanInvoiceNumber lc n ds)"

text \<open>The look-up by file name that ends the \<^verbatim>\<open>try\<close> block; \<open>issued\<close> are the queries sent so far.\<close>

definition filenameLookup ::
  "'a Firestore \<Rightarrow> jsstring \<Rightarrow> jsstring \<Rightarrow> query list \<Rightarrow>
   (thrown + 'a StoredInvoiceData option) \<times> query list" where
  "filenameLookup fs u f issued =
     (case getDocs fs (ByFilename u f) of
        Inl e \<Rightarrow> (Inl e, issued @ [ByFilename u f])
      | Inr ds \<Rightarrow>
          (case ds of
             [] \<Rightarrow> (Inr None, issued @ [ByFilename u f])
           | d # _ \<Rightarrow> (Inr (Some d), issued @ [ByFilename u f])))"

text \<open>
  The \<^verbatim>\<open>try\<close> block of \<open>findExistingInvoice\<close>: what it returns or throws, and the queries
  it has sent to the storage layer.
\<close>

definition findExistingInvoice_try ::
  "(jsstring \<Rightarrow> jsstring) \<Rightarrow> 'a Firestore \<Rightarrow> jsstring \<Rightarrow> jsstring \<Rightarrow> jsstring option \<Rightarrow>
   (thrown + 'a StoredInvoiceData option) \<times> query list" where
  "findExistingInvoice_try lc fs u f number =
     (if \<not> dbReady fs then (Inl notInitialized, [])
      else
        (case number of
           None \<Rightarrow> filenameLookup fs u f []
         | Some n \<Rightarrow>
             if n \<noteq> [] \<and> trim n \<noteq> [] then
               (case getDocs fs (ByInvoiceNumber u (trim n)) of
                  Inl e \<Rightarrow> (Inl e, [ByInvoiceNumber u (trim n)])
                | Inr exact \<Rightarrow>
                    (case exact of
                       d # _ \<Rightarrow> (Inr (Some d), [ByInvoiceNumber u (trim n)])
                     | [] \<Rightarrow>
                         (case getDocs fs (ByUser u) of
                            Inl e \<Rightarrow> (Inl e, [ByInvoiceNumber u (trim n), ByUser u])
                          | Inr all \<Rightarrow>
                              (case scanInvoiceNumber lc n all of
                                 Some d \<Rightarrow> (Inr (Some d), [ByInvoiceNumber u (trim n), ByUser u])
                               | None \<Rightarrow>
                                   filenameLookup fs u f [ByInvoiceNumber u (trim n), ByUser u]))))
             else filenameLookup fs u f []))"

text \<open>\<open>findExistingInvoice\<close>: the \<^verbatim>\<open>catch\<close> turns whatever was thrown into \<^verbatim>\<open>null\<close>.\<close>

definition findExistingInvoice ::
  "(jsstring \<Rightarrow> jsstring) \<Rightarrow> 'a Firestore \<Rightarrow> jsstring \<Rightarrow> jsstring \<Rightarrow> jsstring option \<Rightarrow>
   'a StoredInvoiceData option" where
  "findExistingInvoice lc fs u f number =
     (case fst (findExistingInvoice_try lc fs u f number) of
        Inl e \<Rightarrow> None
      | Inr found \<Rightarrow> found)"

text \<open>\<^verbatim>\<open>filename.toLowerCase().replace(/[^a-z0-9]/g, '_')\<close>\<close>

definition cleanFilename :: "(jsstring \<Rightarrow> jsstring) \<Rightarrow> jsstring \<Rightarrow> jsstring" where
  "cleanFilename lc f = map (\<lambda>c. if isLowerAZ c \<or> isDigit09 c then c else 95) (lc f)"

text \<open>\<open>generateDocumentId\<close>; \<open>now\<close> is \<^verbatim>\<open>Date.now()\<close>.\<close>

definition generateDocumentId :: "(jsstring \<Rightarrow> jsstring) \<Rightarrow> jsstring \<Rightarrow> jsstring \<Rightarrow> nat \<Rightarrow> jsstring" where
  "generateDocumentId lc u f now = u @ js ''_'' @ cleanFilename lc f @ js ''_'' @ decimal now"

text \<open>\<^verbatim>\<open>a || b\<close> on strings: the empty string is falsy.\<close>

definition orString :: "jsstring \<Rightarrow> jsstring \<Rightarrow> jsstring" where
  "orString a b = (if a = [] then b else a)"

text \<open>
  The database is the one of \<^verbatim>\<open>getFirestore(app)\<close> (src/lib/firebase.ts), without the
  setting \<^verbatim>\<open>ignoreUndefinedProperties\<close>: \<^verbatim>\<open>setDoc\<close> and \<^verbatim>\<open>updateDoc\<close> throw when a field
  of the written object is \<^verbatim>\<open>undefined\<close>, before anything is sent.  \<open>fn\<close> is the name of
  the function, \<open>field\<close> the first such field and \<open>docId\<close> the id of the document.
\<close>

definition unsupportedUndefined :: "jsstring \<Rightarrow> jsstring \<Rightarrow> jsstring \<Rightarrow> thrown" where
  "unsupportedUndefined fn field docId =
     ErrorObject (js ''FirebaseError'')
       (js ''Function '' @ fn @ js ''() called with invalid data. Unsupported field value: undefined (found in field '' @
        field @ js '' in document invoices/'' @ docId @ js '')'')"

text \<open>
  The first field of \<^verbatim>\<open>invoiceData\<close>, in the order of its keys, that is \<^verbatim>\<open>undefined\<close>.
\<close>

definition undefinedField :: "'a StoredInvoiceData \<Rightarrow> jsstring option" where
  "undefinedField d =
     (if fileUrl d = None then Some (js ''fileUrl'')
      else if fileSize d = None then Some (js ''fileSize'')
      else if invoiceNumber d = None then Some (js ''invoiceNumber'')
      else if totalAmount d = None then Some (js ''totalAmount'')
      else if invoiceDate d = None then Some (js ''invoiceDate'')
      else if vendorName d = None then Some (js ''vendorName'')
      else if processingMetadata d = None then Some (js ''processingMetadata'')
      else None)"

text \<open>
  The document that a write with \<^verbatim>\<open>{ merge: true }\<close> leaves where \<open>old\<close> is stored: the
  fields of the written object replace the stored ones, and its two maps are merged into
  the stored maps.
\<close>

definition mergeInto ::
  "'a Firestore \<Rightarrow> 'a StoredInvoiceData \<Rightarrow> 'a StoredInvoiceData \<Rightarrow> 'a StoredInvoiceData" where
  "mergeInto fs old new =
     new\<lparr> processingMetadata :=
            (case processingMetadata old of
               None \<Rightarrow> processingMetadata new
             | Some a \<Rightarrow> map_option (mergeMeta fs a) (processingMetadata new)),
          extractedData := mergeMaps fs (extractedData old) (extractedData new) \<rparr>"

text \<open>A new document takes its place in the order of the ids.\<close>

fun insertById ::
  "(jsstring \<Rightarrow> jsstring \<Rightarrow> bool) \<Rightarrow> 'a StoredInvoiceData \<Rightarrow> 'a StoredInvoiceData list \<Rightarrow>
   'a StoredInvoiceData list" where
  "insertById before new [] = [new]"
| "insertById before new (d # ds) =
     (if before (id' new) (id' d) then new # d # ds else d # insertById before new ds)"

text \<open>
  The documents after \<^verbatim>\<open>setDoc(docRef, invoiceData, { merge: true })\<close> at the document
  \<open>id' new\<close>: the document of that id is merged, and without one the new document is added.
\<close>

definition written :: "'a Firestore \<Rightarrow> 'a StoredInvoiceData \<Rightarrow> 'a StoredInvoiceData list" where
  "written fs new =
     (if id' new \<in> set (map id' (documents fs))
      then map (\<lambda>d. if id' d = id' new then mergeInto fs d new else d) (documents fs)
      else insertById (idBefore fs) new (documents fs))"

definition setDocMerge :: "'a Firestore \<Rightarrow> 'a StoredInvoiceData \<Rightarrow> thrown + 'a Firestore" where
  "setDocMerge fs new =
     (case undefinedField new of
        Some field \<Rightarrow> Inl (unsupportedUndefined (js ''setDoc'') field (id' new))
      | None \<Rightarrow>
          (case writeFault fs new of
             Some e \<Rightarrow> Inl e
           | None \<Rightarrow> Inr (fs\<lparr> documents := written fs new \<rparr>)))"

record SaveResult =
  success :: bool
  message :: jsstring
  documentId :: "jsstring option"

text \<open>The normalized vendor name that both writers store: \<^verbatim>\<open>standardizeVendorName(...) || 'Unknown'\<close>.\<close>

definition indexedVendorName :: "(jsstring \<Rightarrow> jsstring) \<Rightarrow> 'a ExtractedInvoice \<Rightarrow> jsstring" where
  "indexedVendorName nfkc extracted =
     orString (standardizeVendorName nfkc (company_name extracted)) (js ''Unknown'')"

text \<open>
  \<open>saveInvoiceData\<close>, with the object \<^verbatim>\<open>invoiceData\<close> that it writes (its \<^verbatim>\<open>id\<close>
  is \<^verbatim>\<open>documentId\<close>).  \<open>now\<close> is \<^verbatim>\<open>Date.now()\<close> and \<open>serverTime\<close> what
  \<^verbatim>\<open>serverTimestamp()\<close> becomes at the write.  The result is the returned object and the
  storage after the call.
\<close>

definition invoiceData ::
  "(jsstring \<Rightarrow> jsstring) \<Rightarrow> (jsstring \<Rightarrow> jsstring) \<Rightarrow> nat \<Rightarrow> nat \<Rightarrow>
   'a StoredInvoiceData option \<Rightarrow> jsstring \<Rightarrow> jsstring \<Rightarrow> 'a ExtractedInvoice \<Rightarrow>
   jsstring option \<Rightarrow> nat option \<Rightarrow> 'a StoredInvoiceData" where
  "invoiceData nfkc lc now serverTime existingInvoice u f extracted url bytes =
     \<lparr> id' = (case existingInvoice of
                None \<Rightarrow> generateDocumentId lc u f now
              | Some e \<Rightarrow> orString (id' e) (generateDocumentId lc u f now)),
       userId = u, filename = cleanFilename lc f, originalFilename = f,
       fileUrl = url, fileSize = bytes,
       invoiceNumber = invoice_number extracted,
       totalAmount = total_amount extracted,
       invoiceDate = invoice_date extracted,
       vendorName = Some (indexedVendorName nfkc extracted),
       processingMetadata = processing_metadata extracted,
       extractedData = extracted,
       createdAt = (case existingInvoice of None \<Rightarrow> serverTime | Some e \<Rightarrow> createdAt e),
       updatedAt = serverTime \<rparr>"

definition saveInvoiceData ::
  "(jsstring \<Rightarrow> jsstring) \<Rightarrow> (jsstring \<Rightarrow> jsstring) \<Rightarrow> nat \<Rightarrow> nat \<Rightarrow> 'a Firestore \<Rightarrow>
   jsstring \<Rightarrow> jsstring \<Rightarrow> 'a ExtractedInvoice \<Rightarrow> jsstring option \<Rightarrow> nat option \<Rightarrow>
   SaveResult \<times> 'a Firestore" where
  "saveInvoiceData nfkc lc now serverTime fs u f extracted url bytes =
     (let existingInvoice = findExistingInvoice lc fs u f (invoice_number extracted);
          new = invoiceData nfkc lc now serverTime existingInvoice u f extracted url bytes;
          failed = (\<lambda>e. \<lparr> success = False,
                          message = js ''Failed to save invoice data: '' @ messageOf e,
                          documentId = None \<rparr>)
      in if \<not> dbReady fs then (failed notInitialized, fs)
         else
           (case setDocMerge fs new of
              Inl e \<Rightarrow> (failed e, fs)
            | Inr fs' \<Rightarrow>
                (\<lparr> success = True,
                   message =
                     (if existingInvoice \<noteq> None
                      then js ''Invoice '' @ [34] @ f @ [34] @ js '' updated successfully in database''
                      else js ''Invoice '' @ [34] @ f @ [34] @ js '' saved successfully to database''),
                   documentId = Some (id' new) \<rparr>, fs')))"

text \<open>
  \<^verbatim>\<open>updateDoc\<close> throws for a field that is \<^verbatim>\<open>undefined\<close> (\<open>undefinedKey\<close> is the first
  one of the written object), and when there is no document of the id; otherwise it
  replaces the given fields of the document.
\<close>

definition updateDoc ::
  "'a Firestore \<Rightarrow> jsstring \<Rightarrow> jsstring option \<Rightarrow> ('a StoredInvoiceData \<Rightarrow> 'a StoredInvoiceData) \<Rightarrow>
   thrown + 'a Firestore" where
  "updateDoc fs docId undefinedKey change =
     (case undefinedKey of
        Some field \<Rightarrow> Inl (unsupportedUndefined (js ''updateDoc'') field docId)
      | None \<Rightarrow>
          (case find (\<lambda>d. id' d = docId) (documents fs) of
             None \<Rightarrow> Inl (notFound fs)
           | Some old \<Rightarrow>
               (case writeFault fs (change old) of
                  Some e \<Rightarrow> Inl e
                | None \<Rightarrow>
                    Inr (fs\<lparr> documents :=
                              map (\<lambda>d. if id' d = docId then change d else d) (documents fs) \<rparr>))))"

text \<open>
  \<open>updateInvoiceData\<close>, which writes the object with the keys \<^verbatim>\<open>invoiceNumber\<close>,
  \<^verbatim>\<open>totalAmount\<close>, \<^verbatim>\<open>invoiceDate\<close>, \<^verbatim>\<open>vendorName\<close>, \<^verbatim>\<open>extractedData\<close> and
  \<^verbatim>\<open>updatedAt\<close>.
\<close>

definition updateInvoiceData ::
  "(jsstring \<Rightarrow> jsstring) \<Rightarrow> nat \<Rightarrow> 'a Firestore \<Rightarrow> jsstring \<Rightarrow> jsstring \<Rightarrow> 'a ExtractedInvoice \<Rightarrow>
   SaveResult \<times> 'a Firestore" where
  "updateInvoiceData nfkc serverTime fs docId u extracted =
     (let failed = (\<lambda>e. \<lparr> success = False,
                          message = js ''Failed to update invoice data: '' @ messageOf e,
                          documentId = None \<rparr>);
          undefinedKey = (if invoice_number extracted = None then Some (js ''invoiceNumber'')
                          else if total_amount extracted = None then Some (js ''totalAmount'')
                          else if invoice_date extracted = None then Some (js ''invoiceDate'')
                          else None);
          change = (\<lambda>d. d\<lparr> invoiceNumber := invoice_number extracted,
                            totalAmount := total_amount extracted,
                            invoiceDate := invoice_date extracted,
                            vendorName := Some (indexedVendorName nfkc extracted),
                            extractedData := extracted,
                            updatedAt := serverTime \<rparr>)
      in if \<not> dbReady fs then (failed notInitialized, fs)
         else
           (case updateDoc fs docId undefinedKey change of
              Inl e \<Rightarrow> (failed e, fs)
            | Inr fs' \<Rightarrow>
                (\<lparr> success = True,
                   message = js ''Invoice '' @ [34] @
                             (case invoice_number extracted of None \<Rightarrow> js ''undefined'' | Some n \<Rightarrow> n) @
                             [34] @ js '' updated successfully in database'',
                   documentId = Some docId \<rparr>, fs')))"

subsection \<open>The Duplicate Resolver in the words of the specification\<close>

text \<open>
  The priority order of section 4.3, on the list of stored records and without any storage
  fault.  Step 1: if a document number is supplied and not blank, an exact match of owner
  and document number.  Step 2: failing that, the first of the owner's records whose
  document number equals the supplied one, compared without regard to case after trimming.
  Step 3: failing that, or without a document number, an exact match of owner and original
  file name.  Otherwise nothing.
\<close>

definition findExisting_spec ::
  "(jsstring \<Rightarrow> jsstring) \<Rightarrow> 'a StoredInvoiceData list \<Rightarrow> jsstring \<Rightarrow> jsstring \<Rightarrow> jsstring option \<Rightarrow>
   'a StoredInvoiceData option" where
  "findExisting_spec lc docs u f number =
     (let byNumber =
            (case number of
               None \<Rightarrow> None
             | Some n \<Rightarrow>
                 if trim n = [] then None
                 else
                   (case find (\<lambda>d. userId d = u \<and> invoiceNumber d = Some n) docs of
                      Some d \<Rightarrow> Some d
                    | None \<Rightarrow>
                        find (\<lambda>d. userId d = u \<and>
                                  (case invoiceNumber d of
                                     None \<Rightarrow> False
                                   | Some m \<Rightarrow> lc (trim m) = lc (trim n))) docs))
      in case byNumber of
           Some d \<Rightarrow> Some d
         | None \<Rightarrow> find (\<lambda>d. userId d = u \<and> originalFilename d = f) docs)"

text \<open>
  The same priority order with step 1 amended: the exact match is on the owner and the
  supplied document number after trimming.
\<close>

definition findExisting_amended ::
  "(jsstring \<Rightarrow> jsstring) \<Rightarrow> 'a StoredInvoiceData list \<Rightarrow> jsstring \<Rightarrow> jsstring \<Rightarrow> jsstring option \<Rightarrow>
   'a StoredInvoiceData option" where
  "findExisting_amended lc docs u f number =
     (let byNumber =
            (case number of
               None \<Rightarrow> None
             | Some n \<Rightarrow>
                 if trim n = [] then None
                 else
                   (case find (\<lambda>d. userId d = u \<and> invoiceNumber d = Some (trim n)) docs of
                      Some d \<Rightarrow> Some d
                    | None \<Rightarrow>
                        find (\<lambda>d. userId d = u \<and>
                                  (case invoiceNumber d of
                                     None \<Rightarrow> False
                                   | Some m \<Rightarrow> lc (trim m) = lc (trim n))) docs))
      in case byNumber of
           Some d \<Rightarrow> Some d
         | None \<Rightarrow> find (\<lambda>d. userId d = u \<and> originalFilename d = f) docs)"

subsection \<open>Sample data\<close>

text \<open>
  A merge of payloads in which every read field that the written payload carries replaces
  the stored one, and the rest is the written one.
\<close>

definition orElse :: "'b option \<Rightarrow> 'b option \<Rightarrow> 'b option" where
  "orElse new old = (case new of None \<Rightarrow> old | Some v \<Rightarrow> Some v)"

definition fieldMerge :: "'a ExtractedInvoice \<Rightarrow> 'a ExtractedInvoice \<Rightarrow> 'a ExtractedInvoice" where
  "fieldMerge old new =
     \<lparr> invoice_number = orElse (invoice_number new) (invoice_number old),
       invoice_date = orElse (invoice_date new) (invoice_date old),
       total_amount = orElse (total_amount new) (total_amount old),
       company_name = orElse (company_name new) (company_name old),
       processing_metadata = orElse (processing_metadata new) (processing_metadata old),
       payload = payload new \<rparr>"

text \<open>The order of ids by their code units.\<close>

fun codeUnitsBefore :: "jsstring \<Rightarrow> jsstring \<Rightarrow> bool" where
  "codeUnitsBefore [] [] = False"
| "codeUnitsBefore [] (y # ys) = True"
| "codeUnitsBefore (x # xs) [] = False"
| "codeUnitsBefore (x # xs) (y # ys) = (x < y \<or> (x = y \<and> codeUnitsBefore xs ys))"

text \<open>A storage layer without faults over the given documents.\<close>

definition workingStore :: "'a StoredInvoiceData list \<Rightarrow> 'a Firestore" where
  "workingStore ds =
     \<lparr> dbReady = True, documents = ds, readFault = (\<lambda>q. None), writeFault = (\<lambda>d. None),
       notFound = ErrorObject (js ''FirebaseError'') (js ''No document to update''),
       idBefore = codeUnitsBefore, mergeMaps = fieldMerge, mergeMeta = (\<lambda>old new. new) \<rparr>"

definition sampleInvoice :: "jsstring option \<Rightarrow> jsstring option \<Rightarrow> unit ExtractedInvoice" where
  "sampleInvoice number company =
     \<lparr> invoice_number = number, invoice_date = Some (js ''2024-01-31''), total_amount = Some 100,
       company_name = company, processing_metadata = Some (), payload = () \<rparr>"

definition sampleRecord :: "jsstring \<Rightarrow> jsstring \<Rightarrow> jsstring \<Rightarrow> jsstring \<Rightarrow> unit StoredInvoiceData" where
  "sampleRecord i u f number =
     \<lparr> id' = i, userId = u, filename = cleanFilename asciiToLowerCase f, originalFilename = f,
       fileUrl = Some (js ''https://files.example/doc.pdf''), fileSize = Some 1024,
       invoiceNumber = Some number, totalAmount = Some 100, invoiceDate = Some (js ''2024-01-31''),
       vendorName = Some (js ''Acme Inc''), processingMetadata = Some (),
       extractedData = sampleInvoice (Some number) (Some (js ''Acme Inc'')),
       createdAt = 1, updatedAt = 1 \<rparr>"

text \<open>The same storage layer when the scan of one owner's documents throws.\<close>

definition scanFails :: "jsstring \<Rightarrow> 'a Firestore \<Rightarrow> 'a Firestore" where
  "scanFails u fs =
     fs\<lparr> readFault := (\<lambda>q. if q = ByUser u
                              then Some (ErrorObject (js ''FirebaseError'') (js ''unavailable''))
                              else None) \<rparr>"

section \<open>Batch orchestrator: \<^verbatim>\<open>processBatch\<close> and \<^verbatim>\<open>POST\<close> (src/app/api/process-invoice/route.ts)\<close>

subsection \<open>Values of the backend's JSON answer\<close>

text \<open>
  The answer of the backend has the type \<^verbatim>\<open>any\<close>: a parsed JSON value, or \<^verbatim>\<open>undefined\<close>
  where a property is absent.  Numbers are rationals here; the rounding of doubles is left
  out, and nothing below depends on it.
\<close>

datatype jsval =
    JUndefined
  | JNull
  | JBool bool
  | JNum rat
  | JStr jsstring
  | JArr "jsval list"
  | JObj "(jsstring \<times> jsval) list"

fun truthy :: "jsval \<Rightarrow> bool" where
  "truthy JUndefined = False"
| "truthy JNull = False"
| "truthy (JBool b) = b"
| "truthy (JNum n) = (n \<noteq> 0)"
| "truthy (JStr s) = (s \<noteq> [])"
| "truthy (JArr vs) = True"
| "truthy (JObj kvs) = True"

text \<open>\<^verbatim>\<open>a || b\<close>\<close>

definition jsOr :: "jsval \<Rightarrow> jsval \<Rightarrow> jsval" where
  "jsOr a b = (if truthy a then a else b)"

text \<open>
  Reading a property \<^verbatim>\<open>v.key\<close>, for the keys that the code reads (none of them is a
  built-in property of a string, a number or an array): \<^verbatim>\<open>null\<close> and \<^verbatim>\<open>undefined\<close>
  throw a \<^verbatim>\<open>TypeError\<close>, an object gives the value under the key, and everything else
  gives \<^verbatim>\<open>undefined\<close>.
\<close>

definition typeError :: "jsstring \<Rightarrow> thrown" where
  "typeError m = ErrorObject (js ''TypeError'') m"

definition getProp :: "jsval \<Rightarrow> string \<Rightarrow> thrown + jsval" where
  "getProp v key =
     (case v of
        JUndefined \<Rightarrow>
          Inl (typeError (js ''Cannot read properties of undefined (reading '' @ [39] @ js key @ [39] @ js '')''))
      | JNull \<Rightarrow>
          Inl (typeError (js ''Cannot read properties of null (reading '' @ [39] @ js key @ [39] @ js '')''))
      | JObj kvs \<Rightarrow> Inr (case map_of kvs (js key) of None \<Rightarrow> JUndefined | Some x \<Rightarrow> x)
      | _ \<Rightarrow> Inr JUndefined)"

text \<open>Sequencing of steps that may throw.\<close>

definition thenE :: "thrown + 'a \<Rightarrow> ('a \<Rightarrow> thrown + 'b) \<Rightarrow> thrown + 'b" where
  "thenE r k = (case r of Inl e \<Rightarrow> Inl e | Inr v \<Rightarrow> k v)"

subsection \<open>Files and outcomes\<close>

record File =
  file_name :: jsstring
  file_type :: jsstring
  file_size :: nat

text \<open>
  The processing time of an outcome: absent, a number of milliseconds, or the number that
  JavaScript makes of \<^verbatim>\<open>v * 1000\<close> for a string, an array or an object \<open>v\<close>, which is not
  computed here.
\<close>

datatype ptime = Absent | Millis rat | Coerced jsval

text \<open>
  \<open>BatchResult\<close>; its fields \<^verbatim>\<open>filename\<close> and \<^verbatim>\<open>success\<close> are \<open>filename'\<close> and
  \<open>success'\<close> here.
\<close>

record BatchResult =
  filename' :: jsval
  success' :: jsval
  data :: jsval
  error :: jsval
  processingTime :: ptime

text \<open>The failure outcome that every error path of \<open>processBatch\<close> pushes for a file.\<close>

definition failedResult :: "jsstring \<Rightarrow> File \<Rightarrow> BatchResult" where
  "failedResult reason file =
     \<lparr> filename' = JStr (file_name file), success' = JBool False, data = JUndefined,
       error = JStr reason, processingTime = Millis 0 \<rparr>"

text \<open>\<^verbatim>\<open>fileResult.processing_time_seconds ? fileResult.processing_time_seconds * 1000 : 0\<close>\<close>

definition toMillis :: "jsval \<Rightarrow> ptime" where
  "toMillis v =
     (if truthy v
      then (case v of
              JNum n \<Rightarrow> Millis (n * 1000)
            | JBool b \<Rightarrow> Millis 1000
            | _ \<Rightarrow> Coerced v)
      else Millis 0)"

text \<open>The callback of \<^verbatim>\<open>result.results.forEach\<close>: one entry of the answer as an outcome.\<close>

definition mapFileResult :: "jsval \<Rightarrow> thrown + BatchResult" where
  "mapFileResult fileResult =
     thenE (getProp fileResult ''filename'') (\<lambda>name.
     thenE (getProp fileResult ''success'') (\<lambda>ok.
     thenE (getProp fileResult ''data'') (\<lambda>d.
     thenE (getProp fileResult ''error_details'') (\<lambda>details.
     thenE (if truthy details then Inr details else getProp fileResult ''error'') (\<lambda>err.
     thenE (getProp fileResult ''processing_time_seconds'') (\<lambda>seconds.
       Inr \<lparr> filename' = jsOr name (JStr (js ''unknown'')),
             success' = jsOr ok (JBool False),
             data = d,
             error = err,
             processingTime = toMillis seconds \<rparr>))))))"

text \<open>
  \<^verbatim>\<open>forEach\<close> over the entries: each outcome is pushed as it is made, and an entry that
  throws ends the loop with the outcomes pushed so far.
\<close>

fun forEachResult :: "jsval list \<Rightarrow> BatchResult list \<Rightarrow> thrown option \<times> BatchResult list" where
  "forEachResult [] results = (None, results)"
| "forEachResult (fileResult # rest) results =
     (case mapFileResult fileResult of
        Inl e \<Rightarrow> (Some e, results)
      | Inr r \<Rightarrow> forEachResult rest (results @ [r]))"

text \<open>
  What the backend does with one call: \<^verbatim>\<open>fetch\<close> throws (an \<^verbatim>\<open>AbortError\<close> when the
  timer of \<^verbatim>\<open>TIMEOUT_PER_FILE * files.length\<close> fires first), or it answers with a status,
  and \<^verbatim>\<open>response.text()\<close> and \<^verbatim>\<open>response.json()\<close> give a value or throw.
\<close>

datatype reply =
    FetchThrows thrown
  | Response nat "thrown + jsstring" "thrown + jsval"

definition responseOk :: "nat \<Rightarrow> bool" where
  "responseOk st \<longleftrightarrow> 200 \<le> st \<and> st \<le> 299"

definition unexpectedFormat :: "File list \<Rightarrow> BatchResult list" where
  "unexpectedFormat files = map (failedResult (js ''Unexpected response format from backend'')) files"

text \<open>
  The inner \<^verbatim>\<open>try\<close> block of \<open>processBatch\<close>: what it throws, if anything, and the
  outcomes pushed until then.
\<close>

definition tryFetch :: "File list \<Rightarrow> reply \<Rightarrow> thrown option \<times> BatchResult list" where
  "tryFetch files r =
     (case r of
        FetchThrows e \<Rightarrow> (Some e, [])
      | Response st txt parsed \<Rightarrow>
          if \<not> responseOk st then
            (case txt of
               Inl e \<Rightarrow> (Some e, [])
             | Inr errorText \<Rightarrow>
                 (None, map (failedResult (js ''HTTP '' @ decimal st @ js '': '' @ errorText)) files))
          else
            (case parsed of
               Inl e \<Rightarrow> (Some e, [])
             | Inr result \<Rightarrow>
                 (case getProp result ''success'' of
                    Inl e \<Rightarrow> (Some e, [])
                  | Inr ok \<Rightarrow>
                      if truthy ok then
                        (case getProp result ''results'' of
                           Inl e \<Rightarrow> (Some e, [])
                         | Inr entries \<Rightarrow>
                             if truthy entries then
                               (case entries of
                                  JArr es \<Rightarrow> forEachResult es []
                                | _ \<Rightarrow> (Some (typeError (js ''result.results.forEach is not a function'')), []))
                             else (None, unexpectedFormat files))
                      else (None, unexpectedFormat files))))"

definition isAbortError :: "thrown \<Rightarrow> bool" where
  "isAbortError e = (case e of ErrorObject n m \<Rightarrow> n = js ''AbortError'' | NonError \<Rightarrow> False)"

text \<open>The reason that the inner \<^verbatim>\<open>catch\<close> gives every file of the batch.\<close>

definition failureReason :: "thrown \<Rightarrow> jsstring" where
  "failureReason e = (if isAbortError e then js ''Request timeout'' else messageOf e)"

text \<open>A settled promise.\<close>

datatype settled = Fulfilled "BatchResult list" | Rejected thrown

text \<open>
  \<open>processBatch\<close>.  The outer \<^verbatim>\<open>try\<close> holds, beside the inner one, only the construction
  of the form data, of the abort controller and of the timer, none of which throws; the
  inner \<^verbatim>\<open>catch\<close> handles whatever the inner block throws and throws nothing itself.
\<close>

definition processBatch :: "File list \<Rightarrow> reply \<Rightarrow> settled" where
  "processBatch files r =
     (case tryFetch files r of
        (None, results) \<Rightarrow> Fulfilled results
      | (Some e, results) \<Rightarrow> Fulfilled (results @ map (failedResult (failureReason e)) files))"

subsection \<open>Batches and waves\<close>

definition BATCH_SIZE :: nat where
  "BATCH_SIZE = 3"

definition MAX_CONCURRENT_BATCHES :: nat where
  "MAX_CONCURRENT_BATCHES = 2"

text \<open>\<^verbatim>\<open>xs.slice(start, end)\<close> for indices that are not negative.\<close>

definition slice :: "'a list \<Rightarrow> nat \<Rightarrow> nat \<Rightarrow> 'a list" where
  "slice xs start end' = drop start (take end' xs)"

text \<open>
  The loop that creates the batches (the same loop, with batch size 2, is in
  \<^verbatim>\<open>processInvoices\<close> of src/app/dashboard/page.tsx).  With a batch size of 0 it would
  not end.
\<close>

partial_function (option) createBatches ::
  "nat \<Rightarrow> 'a list \<Rightarrow> nat \<Rightarrow> 'a list list \<Rightarrow> 'a list list option" where
  "createBatches B files i batches =
     (if i < length files
      then createBatches B files (i + B) (batches @ [slice files i (i + B)])
      else Some batches)"

text \<open>The network calls of a request, in the order in which they are issued.\<close>

datatype call = HealthCheck | ParseMultiple "File list"

text \<open>
  What the loop over the settled promises of a wave pushes for one of them; \<open>batch\<close> is
  \<^verbatim>\<open>batches[batchIndex + index]\<close>.
\<close>

definition reasonText :: "thrown \<Rightarrow> jsstring" where
  "reasonText e = (case e of ErrorObject n m \<Rightarrow> n @ js '': '' @ m | NonError \<Rightarrow> js ''undefined'')"

definition settledResults :: "File list \<Rightarrow> settled \<Rightarrow> BatchResult list" where
  "settledResults batch result =
     (case result of
        Fulfilled v \<Rightarrow> v
      | Rejected reason \<Rightarrow>
          map (\<lambda>file. \<lparr> filename' = JStr (file_name file), success' = JBool False,
                         data = JUndefined,
                         error = JStr (js ''Batch processing failed: '' @ reasonText reason),
                         processingTime = Absent \<rparr>) batch)"

text \<open>
  One wave: the batches of the chunk are started in order, each with one call to the
  backend; when all have settled, their outcomes are pushed in the order of the chunk.
  \<open>replies k\<close> is what the backend does with the call for batch \<open>k\<close>.
\<close>

definition wave ::
  "nat \<Rightarrow> (nat \<Rightarrow> reply) \<Rightarrow> File list list \<Rightarrow> nat \<Rightarrow> BatchResult list \<times> call list \<Rightarrow>
   BatchResult list \<times> call list" where
  "wave C replies batches batchIndex st =
     (let currentBatches = slice batches batchIndex (batchIndex + C);
          batchResults = map (\<lambda>(index, batch). processBatch batch (replies (batchIndex + index)))
                             (enumerate 0 currentBatches)
      in (fst st @ concat (map (\<lambda>(index, result). settledResults (batches ! (batchIndex + index)) result)
                               (enumerate 0 batchResults)),
          snd st @ map ParseMultiple currentBatches))"

partial_function (option) runWaves ::
  "nat \<Rightarrow> (nat \<Rightarrow> reply) \<Rightarrow> File list list \<Rightarrow> nat \<Rightarrow> BatchResult list \<times> call list \<Rightarrow>
   (BatchResult list \<times> call list) option" where
  "runWaves C replies batches batchIndex st =
     (if batchIndex < length batches
      then runWaves C replies batches (batchIndex + C) (wave C replies batches batchIndex st)
      else Some st)"

subsection \<open>The route handlers\<close>

definition maxFileSize :: nat where
  "maxFileSize = 5 * 1024 * 1024"

text \<open>The validation loop: the message of the first violation.\<close>

fun validateFiles :: "File list \<Rightarrow> jsstring option" where
  "validateFiles [] = None"
| "validateFiles (file # files) =
     (if file_type file \<noteq> js ''application/pdf'' then Some (js ''Only PDF files are supported'')
      else if file_size file > maxFileSize
      then Some (js ''File '' @ [34] @ file_name file @ [34] @
                 js '' exceeds 5MB limit. Please upload smaller files.'')
      else validateFiles files)"

text \<open>
  The request (\<^verbatim>\<open>request.formData()\<close> gives the files or throws) and the environment: the
  configured URL of the backend, what its health endpoint does, and what it does with the
  call for each batch.
\<close>

record Backend =
  backendUrl :: "jsstring option"
  health :: "thrown + nat"
  replies :: "nat \<Rightarrow> reply"

record Statistics =
  totalFiles :: nat
  successfulFiles :: nat
  failedFiles :: nat
  batchesProcessed :: nat

text \<open>
  The response: its status and the fields of its JSON body (the \<^verbatim>\<open>details\<close> texts and the
  sums of processing times are left out).
\<close>

record NextResponse =
  status :: nat
  jsonSuccess :: bool
  jsonMessage :: jsstring
  results :: "BatchResult list option"
  statistics :: "Statistics option"

definition errorResponse :: "nat \<Rightarrow> jsstring \<Rightarrow> NextResponse" where
  "errorResponse st m =
     \<lparr> status = st, jsonSuccess = False, jsonMessage = m, results = None, statistics = None \<rparr>"

definition batchReport :: "File list \<Rightarrow> File list list \<Rightarrow> BatchResult list \<Rightarrow> NextResponse" where
  "batchReport files batches rs =
     (let ok = filter (\<lambda>r. truthy (success' r)) rs;
          bad = filter (\<lambda>r. \<not> truthy (success' r)) rs
      in \<lparr> status = 200, jsonSuccess = True,
           jsonMessage = js ''Batch processing completed. '' @ decimal (length ok) @
                         js '' successful, '' @ decimal (length bad) @ js '' failed.'',
           results = Some rs,
           statistics = Some \<lparr> totalFiles = length files, successfulFiles = length ok,
                                failedFiles = length bad, batchesProcessed = length batches \<rparr> \<rparr>)"

text \<open>
  The handler of the batch route for a batch size \<open>B\<close> and \<open>C\<close> concurrent batches: the
  response and the network calls, or \<open>None\<close> when a loop does not end.
\<close>

definition POST_with ::
  "nat \<Rightarrow> nat \<Rightarrow> Backend \<Rightarrow> thrown + File list \<Rightarrow> (NextResponse \<times> call list) option" where
  "POST_with B C env formData =
     (case formData of
        Inl e \<Rightarrow> Some (errorResponse 500 (js ''Internal server error during batch processing.''), [])
      | Inr files \<Rightarrow>
          if files = [] then Some (errorResponse 400 (js ''No files provided''), [])
          else
            (case validateFiles files of
               Some m \<Rightarrow> Some (errorResponse 400 m, [])
             | None \<Rightarrow>
                 (case backendUrl env of
                    None \<Rightarrow> Some (errorResponse 500 (js ''Backend API URL not configured''), [])
                  | Some url \<Rightarrow>
                      if url = [] then Some (errorResponse 500 (js ''Backend API URL not configured''), [])
                      else
                        (case health env of
                           Inl e \<Rightarrow>
                             Some (errorResponse 503 (js ''Backend service is not accessible.''), [HealthCheck])
                         | Inr st \<Rightarrow>
                             if \<not> responseOk st
                             then Some (errorResponse 503 (js ''Backend service is not responding properly.''),
                                        [HealthCheck])
                             else
                               (case createBatches B files 0 [] of
                                  None \<Rightarrow> None
                                | Some batches \<Rightarrow>
                                    (case runWaves C (replies env) batches 0 ([], [HealthCheck]) of
                                       None \<Rightarrow> None
                                     | Some (rs, calls) \<Rightarrow> Some (batchReport files batches rs, calls)))))))"

definition POST :: "Backend \<Rightarrow> thrown + File list \<Rightarrow> (NextResponse \<times> call list) option" where
  "POST = POST_with BATCH_SIZE MAX_CONCURRENT_BATCHES"


section \<open>The route \<^verbatim>\<open>process-multiple-invoices\<close> (src/app/api/process-multiple-invoices/route.ts)\<close>

text \<open>\<^verbatim>\<open>s.includes(p)\<close>\<close>

fun includes_str :: "jsstring \<Rightarrow> jsstring \<Rightarrow> bool" where
  "includes_str [] p = (p = [])"
| "includes_str (c # cs) p = (take (length p) (c # cs) = p \<or> includes_str cs p)"

text \<open>The message of the outer \<^verbatim>\<open>catch\<close>.\<close>

definition caughtMessage :: "thrown \<Rightarrow> jsstring" where
  "caughtMessage e =
     (case e of
        NonError \<Rightarrow> js ''Internal server error''
      | ErrorObject n m \<Rightarrow>
          if n = js ''TypeError'' \<and> includes_str m (js ''fetch'')
          then js ''Network error - unable to connect to backend service''
          else m)"

text \<open>
  \<^verbatim>\<open>NextResponse.json(body, { status })\<close> throws for a status outside 200 to 599 and for
  a status that allows no body; the texts are those of the runtime's \<^verbatim>\<open>Response\<close>.
\<close>

definition responseInit :: "nat \<Rightarrow> thrown option" where
  "responseInit st =
     (if st < 200 \<or> 599 < st
      then Some (ErrorObject (js ''RangeError'')
                   (js ''init['' @ [34] @ js ''status'' @ [34] @
                    js ''] must be in the range of 200 to 599, inclusive.''))
      else if st = 204 \<or> st = 205 \<or> st = 304
      then Some (typeError (js ''Response constructor: Invalid response status code '' @ decimal st))
      else None)"

text \<open>
  The response of this route carries the answer of the backend as \<^verbatim>\<open>data\<close>; \<open>reply\<close> is
  what the backend does with the one call for all files.
\<close>

record MultipleResponse =
  httpStatus :: nat
  bodySuccess :: bool
  bodyMessage :: jsstring
  bodyData :: "jsval option"

definition multipleError :: "nat \<Rightarrow> jsstring \<Rightarrow> MultipleResponse" where
  "multipleError st m = \<lparr> httpStatus = st, bodySuccess = False, bodyMessage = m, bodyData = None \<rparr>"

definition POST_multiple :: "Backend \<Rightarrow> thrown + File list \<Rightarrow> MultipleResponse \<times> call list" where
  "POST_multiple env formData =
     (case formData of
        Inl e \<Rightarrow> (multipleError 500 (caughtMessage e), [])
      | Inr files \<Rightarrow>
          if files = [] then (multipleError 400 (js ''No files provided''), [])
          else
            (case validateFiles files of
               Some m \<Rightarrow> (multipleError 400 m, [])
             | None \<Rightarrow>
                 (case backendUrl env of
                    None \<Rightarrow> (multipleError 500 (js ''Backend API URL not configured''), [])
                  | Some url \<Rightarrow>
                      if url = [] then (multipleError 500 (js ''Backend API URL not configured''), [])
                      else
                        (case health env of
                           Inl e \<Rightarrow>
                             (multipleError 503 (js ''Backend service is not accessible.''), [HealthCheck])
                         | Inr st \<Rightarrow>
                             if \<not> responseOk st
                             then (multipleError 503 (js ''Backend service is not responding properly.''),
                                   [HealthCheck])
                             else
                               (case replies env 0 of
                                  FetchThrows e \<Rightarrow>
                                    (multipleError 500 (caughtMessage e), [HealthCheck, ParseMultiple files])
                                | Response code txt parsed \<Rightarrow>
                                    if \<not> responseOk code then
                                      (case txt of
                                         Inl e \<Rightarrow>
                                           (multipleError 500 (caughtMessage e),
                                            [HealthCheck, ParseMultiple files])
                                       | Inr errorText \<Rightarrow>
                                           (case responseInit code of
                                              Some e \<Rightarrow>
                                                (multipleError 500 (caughtMessage e),
                                                 [HealthCheck, ParseMultiple files])
                                            | None \<Rightarrow>
                                                (multipleError code (js ''Backend API error: '' @ decimal code),
                                                 [HealthCheck, ParseMultiple files])))
                                    else
                                      (case parsed of
                                         Inl e \<Rightarrow>
                                           (multipleError 500 (caughtMessage e),
                                            [HealthCheck, ParseMultiple files])
                                       | Inr result \<Rightarrow>
                                           (\<lparr> httpStatus = 200, bodySuccess = True,
                                              bodyMessage = js ''Batch processing completed successfully'',
                                              bodyData = Some result \<rparr>,
                                            [HealthCheck, ParseMultiple files])))))))"

subsection \<open>The partition in the words of the specification\<close>

text \<open>Ordered batches of the fixed size \<open>B\<close>: the first \<open>B\<close> files, then the next \<open>B\<close>, and so on.\<close>

function chunks :: "nat \<Rightarrow> 'a list \<Rightarrow> 'a list list" where
  "chunks B xs = (if B = 0 \<or> xs = [] then [] else take B xs # chunks B (drop B xs))"
  by pat_completeness auto
termination
  by (relation "measure (\<lambda>(B, xs). length xs)") auto

declare chunks.simps [simp del]

text \<open>
  A reply answers each file of a batch when, in case it is a well-formed success (a status
  in the 200s whose body has a truthy \<^verbatim>\<open>success\<close> and an array as \<^verbatim>\<open>results\<close>), the array
  has one entry per submitted file and no entry is \<^verbatim>\<open>null\<close>.
\<close>

definition answersEachFile :: "File list \<Rightarrow> reply \<Rightarrow> bool" where
  "answersEachFile files r =
     (case r of
        Response st txt (Inr (JObj kvs)) \<Rightarrow>
          (case (map_of kvs (js ''success''), map_of kvs (js ''results'')) of
             (Some ok, Some (JArr es)) \<Rightarrow>
               if responseOk st \<and> truthy ok
               then length es = length files \<and> list_all (\<lambda>v. v \<noteq> JNull \<and> v \<noteq> JUndefined) es
               else True
           | _ \<Rightarrow> True)
      | _ \<Rightarrow> True)"

subsection \<open>Sample requests\<close>

definition pdf :: "string \<Rightarrow> File" where
  "pdf n = \<lparr> file_name = js n, file_type = js ''application/pdf'', file_size = 1024 \<rparr>"

definition workingBackend :: "(nat \<Rightarrow> reply) \<Rightarrow> Backend" where
  "workingBackend rs = \<lparr> backendUrl = Some (js ''https://api.example''), health = Inr 200, replies = rs \<rparr>"

text \<open>The answer of the backend that reports a success for each of the named files.\<close>

definition okEntry :: "string \<Rightarrow> jsval" where
  "okEntry n = JObj [(js ''filename'', JStr (js n)), (js ''success'', JBool True)]"

definition okReply :: "string list \<Rightarrow> reply" where
  "okReply ns =
     Response 200 (Inr [])
       (Inr (JObj [(js ''success'', JBool True), (js ''results'', JArr (map okEntry ns))]))"

definition okResult :: "string \<Rightarrow> BatchResult" where
  "okResult n =
     \<lparr> filename' = JStr (js n), success' = JBool True, data = JUndefined, error = JUndefined,
       processingTime = Millis 0 \<rparr>"

definition fiveFiles :: "File list" where
  "fiveFiles = [pdf ''f1.pdf'', pdf ''f2.pdf'', pdf ''f3.pdf'', pdf ''f4.pdf'', pdf ''f5.pdf'']"

text \<open>
  A backend for five files in batches of two: it answers the first and the third call with
  a success for each file, and does \<open>second\<close> with the call for files 3 and 4.
\<close>

definition twoByTwo :: "reply \<Rightarrow> nat \<Rightarrow> reply" where
  "twoByTwo second k =
     (if k = 0 then okReply [''f1.pdf'', ''f2.pdf'']
      else if k = 1 then second
      else okReply [''f5.pdf''])"

definition tooLarge :: "string \<Rightarrow> File" where
  "tooLarge n = \<lparr> file_name = js n, file_type = js ''application/pdf'', file_size = 6000000 \<rparr>"

text \<open>An answer whose second entry is \<^verbatim>\<open>null\<close>.\<close>

definition nullEntryReply :: reply where
  "nullEntryReply =
     Response 200 (Inr [])
       (Inr (JObj [(js ''success'', JBool True), (js ''results'', JArr [okEntry ''a.pdf'', JNull])]))"

text \<open>A backend that does the same with every call.\<close>

definition always :: "reply \<Rightarrow> nat \<Rightarrow> reply" where
  "always r k = r"

section \<open>Properties of the Identity Normalizer\<close>

lemmas normalizer_defs =
  standardizeVendorName_def js_def isZeroWidth_def isWhiteSpace_def isBasicChar_def trim_def
  asciiLower_def asciiUpper_def asciiToLowerCase_def isWordChar_def isUpperAZ_def isLowerAZ_def
  isDigit09_def

lemma set_collapseWhitespace: "set (collapseWhitespace b cs) \<subseteq> insert 32 (set cs)"
  by (induction cs arbitrary: b) auto

lemma trim_all_white: "\<forall>c\<in>set s. isWhiteSpace c \<Longrightarrow> trim s = []"
  by (auto simp: trim_def dest: set_dropWhileD)

text \<open>
  C7 (idempotence of the normalizer).  The white space is collapsed before the characters
  outside the basic class are removed, so a removed character that stood between two spaces
  leaves a double space in the result, and a second pass collapses it: the result of
  \<^verbatim>\<open>"a # b"\<close> is \<^verbatim>\<open>"A  B"\<close>, whose own result is \<^verbatim>\<open>"A B"\<close>.  The same input
  separates one pass from two through the override table, where moreover a name of noise
  only, such as \<^verbatim>\<open>"#"\<close>, gives the empty string, which a second pass turns into
  \<^verbatim>\<open>"Unknown"\<close>.
\<close>

theorem standardizeVendorName_second_pass_differs:
  "standardizeVendorName id (Some (js ''a # b'')) = js ''A  B'' \<and>
   standardizeVendorName id (Some (js ''A  B'')) = js ''A B'' \<and>
   enhancedVendorNormalization id (Some (js ''a # b'')) = js ''A  B'' \<and>
   enhancedVendorNormalization id (Some (js ''A  B'')) = js ''A B'' \<and>
   enhancedVendorNormalization id (Some (js ''#'')) = [] \<and>
   enhancedVendorNormalization id (Some []) = js ''Unknown''"
  by (simp add: normalizer_defs enhancedVendorNormalization_def normalizationRules_def)

text \<open>
  C9 as stated fails: the ampersand and the hyphen are neither letters nor digits, and the
  normalizer keeps both.
\<close>

theorem ampersand_hyphen_survive:
  "standardizeVendorName id (Some (js ''&-'')) = js ''&-''"
  by (simp add: normalizer_defs)

text \<open>
  C9, amended: when the NFKC form of the input holds no ASCII letter, no digit, no
  ampersand and no hyphen, the normalizer returns the empty string.
\<close>

theorem noise_normalizes_to_empty:
  assumes "\<forall>c\<in>set (nfkc s). \<not> isKept c"
  shows "standardizeVendorName nfkc (Some s) = []"
proof (cases "s = []")
  case True
  then show ?thesis by (simp add: standardizeVendorName_def)
next
  case False
  let ?u = "filter (\<lambda>c. c \<noteq> 46) (filter (\<lambda>c. \<not> isZeroWidth c) (nfkc s))"
  let ?t = "filter isBasicChar (collapseWhitespace False ?u)"
  have "\<forall>c\<in>set ?t. c = 32"
  proof
    fix c assume c: "c \<in> set ?t"
    then have b: "isBasicChar c" by simp
    from c have "c \<in> insert 32 (set (nfkc s))"
      using set_collapseWhitespace[of False ?u] by auto
    with assms b show "c = 32" by (auto simp: isKept_def isBasicChar_def)
  qed
  then have "\<forall>c\<in>set ?t. isWhiteSpace c" by (simp add: isWhiteSpace_def)
  then have "trim ?t = []" by (rule trim_all_white)
  with False show ?thesis by (simp add: standardizeVendorName_def asciiToLowerCase_def)
qed

theorem noise_normalizes_to_empty_witness:
  "\<not> list_ex isKept (id (js ''#. (!) '')) \<and>
   standardizeVendorName id (Some (js ''#. (!) '')) = []"
  using noise_normalizes_to_empty [of id "js ''#. (!) ''"]
  by (simp add: js_def isKept_def isUpperAZ_def isLowerAZ_def isDigit09_def)

section \<open>Properties of the storage service\<close>

lemma matches_fun:
  "matches (ByInvoiceNumber u n) = (\<lambda>d. userId d = u \<and> invoiceNumber d = Some n)"
  "matches (ByUser u) = (\<lambda>d. userId d = u)"
  "matches (ByFilename u f) = (\<lambda>d. userId d = u \<and> originalFilename d = f)"
  by (simp_all add: fun_eq_iff matches_def)

lemma take1_filter:
  "take (Suc 0) (filter P xs) = (case find P xs of None \<Rightarrow> [] | Some x \<Rightarrow> [x])"
  by (induction xs) auto

lemma scan_find:
  "scanInvoiceNumber lc n (filter (\<lambda>d. userId d = u) ds) =
   find (\<lambda>d. userId d = u \<and> (case invoiceNumber d of None \<Rightarrow> False
                                  | Some m \<Rightarrow> m \<noteq> [] \<and> trim (lc m) = trim (lc n))) ds"
  by (induction ds) (auto split: option.splits)

lemma trim_nonempty: "trim n \<noteq> [] \<Longrightarrow> n \<noteq> []"
  by (auto simp: trim_def)

text \<open>Without faults, the look-up is a cascade of three searches of the document list.\<close>

lemma findExistingInvoice_find:
  assumes "dbReady fs" and "\<forall>q. readFault fs q = None"
  shows "findExistingInvoice lc fs u f number =
     (case (case number of
              None \<Rightarrow> None
            | Some n \<Rightarrow>
                if trim n = [] then None
                else
                  (case find (\<lambda>d. userId d = u \<and> invoiceNumber d = Some (trim n)) (documents fs) of
                     Some d \<Rightarrow> Some d
                   | None \<Rightarrow>
                       find (\<lambda>d. userId d = u \<and>
                                 (case invoiceNumber d of
                                    None \<Rightarrow> False
                                  | Some m \<Rightarrow> m \<noteq> [] \<and> trim (lc m) = trim (lc n))) (documents fs))) of
        Some d \<Rightarrow> Some d
      | None \<Rightarrow> find (\<lambda>d. userId d = u \<and> originalFilename d = f) (documents fs))"
proof -
  have g1: "\<And>n. getDocs fs (ByInvoiceNumber u n) =
        Inr (case find (\<lambda>d. userId d = u \<and> invoiceNumber d = Some n) (documents fs) of
               None \<Rightarrow> [] | Some x \<Rightarrow> [x])"
    using assms(2) by (simp add: getDocs_def take1_filter matches_fun)
  have g2: "getDocs fs (ByUser u) = Inr (filter (\<lambda>d. userId d = u) (documents fs))"
    using assms(2) by (simp add: getDocs_def matches_fun)
  have g3: "getDocs fs (ByFilename u f) =
        Inr (case find (\<lambda>d. userId d = u \<and> originalFilename d = f) (documents fs) of
               None \<Rightarrow> [] | Some x \<Rightarrow> [x])"
    using assms(2) by (simp add: getDocs_def take1_filter matches_fun)
  have fl: "\<And>issued. fst (filenameLookup fs u f issued) =
        Inr (find (\<lambda>d. userId d = u \<and> originalFilename d = f) (documents fs))"
    by (simp add: filenameLookup_def g3 split: option.splits)
  show ?thesis
  proof (cases number)
    case None
    then show ?thesis using assms(1)
      by (simp add: findExistingInvoice_def findExistingInvoice_try_def fl split: option.splits)
  next
    case (Some n)
    show ?thesis
    proof (cases "trim n = []")
      case True
      then show ?thesis using assms(1) Some
        by (simp add: findExistingInvoice_def findExistingInvoice_try_def fl split: option.splits)
    next
      case False
      then show ?thesis using assms(1) Some trim_nonempty[OF False]
        by (simp add: findExistingInvoice_def findExistingInvoice_try_def fl g1 g2 scan_find
                 split: option.splits)
    qed
  qed
qed

lemma isWhiteSpace_asciiLower: "isWhiteSpace (asciiLower c) = isWhiteSpace c"
  by (auto simp: isWhiteSpace_def asciiLower_def isUpperAZ_def)

lemma trim_asciiToLowerCase: "trim (asciiToLowerCase s) = asciiToLowerCase (trim s)"
proof -
  have c: "isWhiteSpace \<circ> asciiLower = isWhiteSpace"
    by (simp add: fun_eq_iff isWhiteSpace_asciiLower)
  show ?thesis
    by (simp add: trim_def asciiToLowerCase_def dropWhile_map rev_map c)
qed

lemmas sample_defs = workingStore_def sampleRecord_def sampleInvoice_def

text \<open>
  C4 as stated fails in its first step: the code sends the exact query with the trimmed
  document number, not with the supplied one.  For the query \<^verbatim>\<open>" INV-100"\<close> a record stored
  with exactly this number is not found by the exact step, and the scan returns the earlier
  record \<^verbatim>\<open>"inv-100"\<close>, where the stated order returns the exact match.
\<close>

theorem untrimmed_exact_match_loses_to_scan:
  "findExistingInvoice asciiToLowerCase
     (workingStore [sampleRecord (js ''U_doc_1'') (js ''U'') (js ''jan.pdf'') (js ''inv-100''),
                    sampleRecord (js ''U_doc_2'') (js ''U'') (js ''feb.pdf'') (js '' INV-100'')])
     (js ''U'') (js ''other.pdf'') (Some (js '' INV-100'')) =
   Some (sampleRecord (js ''U_doc_1'') (js ''U'') (js ''jan.pdf'') (js ''inv-100'')) \<and>
   findExisting_spec asciiToLowerCase
     [sampleRecord (js ''U_doc_1'') (js ''U'') (js ''jan.pdf'') (js ''inv-100''),
      sampleRecord (js ''U_doc_2'') (js ''U'') (js ''feb.pdf'') (js '' INV-100'')]
     (js ''U'') (js ''other.pdf'') (Some (js '' INV-100'')) =
   Some (sampleRecord (js ''U_doc_2'') (js ''U'') (js ''feb.pdf'') (js '' INV-100'')) \<and>
   sampleRecord (js ''U_doc_1'') (js ''U'') (js ''jan.pdf'') (js ''inv-100'') \<noteq>
   sampleRecord (js ''U_doc_2'') (js ''U'') (js ''feb.pdf'') (js '' INV-100'')"
proof -
  let ?ds = "[sampleRecord (js ''U_doc_1'') (js ''U'') (js ''jan.pdf'') (js ''inv-100''),
              sampleRecord (js ''U_doc_2'') (js ''U'') (js ''feb.pdf'') (js '' INV-100'')]"
  have ready: "dbReady (workingStore ?ds)" and reads: "\<forall>q. readFault (workingStore ?ds) q = None"
    and docs: "documents (workingStore ?ds) = ?ds"
    by (simp_all add: workingStore_def)
  have code: "findExistingInvoice asciiToLowerCase (workingStore ?ds)
        (js ''U'') (js ''other.pdf'') (Some (js '' INV-100'')) =
      Some (sampleRecord (js ''U_doc_1'') (js ''U'') (js ''jan.pdf'') (js ''inv-100''))"
    unfolding findExistingInvoice_find[OF ready reads] docs
    by (simp add: sampleRecord_def sampleInvoice_def js_def trim_def isWhiteSpace_def
          asciiToLowerCase_def asciiLower_def isUpperAZ_def)
  have spec: "findExisting_spec asciiToLowerCase ?ds (js ''U'') (js ''other.pdf'') (Some (js '' INV-100'')) =
      Some (sampleRecord (js ''U_doc_2'') (js ''U'') (js ''feb.pdf'') (js '' INV-100''))"
    by (simp add: findExisting_spec_def sampleRecord_def sampleInvoice_def js_def trim_def isWhiteSpace_def
          asciiToLowerCase_def asciiLower_def isUpperAZ_def)
  have diff: "sampleRecord (js ''U_doc_1'') (js ''U'') (js ''jan.pdf'') (js ''inv-100'') \<noteq>
      sampleRecord (js ''U_doc_2'') (js ''U'') (js ''feb.pdf'') (js '' INV-100'')"
    by (simp add: sampleRecord_def js_def)
  from code spec diff show ?thesis by blast
qed

text \<open>
  C4, amended: on a storage layer without faults, \<open>findExistingInvoice\<close> returns what the
  priority order returns whose first step is the exact match of the owner and the trimmed
  document number: that match first, then the first record of the owner whose document
  number agrees after trimming and lower-casing, then the exact match of owner and file
  name, and otherwise nothing.  The code lower-cases before it trims where the
  specification trims first, and it skips a stored number that is empty; lower-casing
  commutes with trimming and makes only the empty string empty.
\<close>

theorem findExistingInvoice_priority_order:
  fixes fs :: "'a Firestore"
  assumes "dbReady fs" and "\<forall>q. readFault fs q = None"
    and "\<forall>s. trim (lc s) = lc (trim s)" and "\<forall>s. (lc s = []) = (s = [])"
  shows "findExistingInvoice lc fs u f number = findExisting_amended lc (documents fs) u f number"
proof -
  have t0: "trim [] = []" by (simp add: trim_def)
  have scan: "(\<lambda>d::'a StoredInvoiceData.
                  userId d = u \<and> (case invoiceNumber d of None \<Rightarrow> False
                                     | Some m \<Rightarrow> m \<noteq> [] \<and> trim (lc m) = trim (lc n))) =
              (\<lambda>d. userId d = u \<and> (case invoiceNumber d of None \<Rightarrow> False
                                     | Some m \<Rightarrow> lc (trim m) = lc (trim n)))"
    if nb: "trim n \<noteq> []" for n
  proof (rule ext)
    fix d :: "'a StoredInvoiceData"
    show "(userId d = u \<and> (case invoiceNumber d of None \<Rightarrow> False
                            | Some m \<Rightarrow> m \<noteq> [] \<and> trim (lc m) = trim (lc n))) =
          (userId d = u \<and> (case invoiceNumber d of None \<Rightarrow> False
                            | Some m \<Rightarrow> lc (trim m) = lc (trim n)))"
    proof (cases "invoiceNumber d")
      case None
      then show ?thesis by simp
    next
      case (Some m)
      have "lc (trim n) \<noteq> []" using assms(4) nb by blast
      moreover have "lc (trim []) = []" using assms(4) t0 by simp
      ultimately have "m = [] \<Longrightarrow> lc (trim m) \<noteq> lc (trim n)" by metis
      then show ?thesis using Some assms(3) by auto
    qed
  qed
  show ?thesis
  proof (cases number)
    case None
    then show ?thesis
      by (simp add: findExistingInvoice_find[OF assms(1,2)] findExisting_amended_def)
  next
    case (Some n)
    show ?thesis
    proof (cases "trim n = []")
      case True
      with Some show ?thesis
        by (simp add: findExistingInvoice_find[OF assms(1,2)] findExisting_amended_def)
    next
      case False
      with Some show ?thesis
        by (simp add: findExistingInvoice_find[OF assms(1,2)] findExisting_amended_def scan[OF False]
              cong: option.case_cong)
    qed
  qed
qed

theorem findExistingInvoice_priority_order_witness:
  "findExistingInvoice asciiToLowerCase
     (workingStore [sampleRecord (js ''U_doc_1'') (js ''U'') (js ''march.pdf'') (js ''INV-100'')])
     (js ''U'') (js ''other.pdf'') (Some (js ''inv-100'')) =
   Some (sampleRecord (js ''U_doc_1'') (js ''U'') (js ''march.pdf'') (js ''INV-100'')) \<and>
   findExistingInvoice asciiToLowerCase
     (workingStore [sampleRecord (js ''U_doc_1'') (js ''U'') (js ''march.pdf'') (js ''INV-100'')])
     (js ''U'') (js ''march.pdf'') (Some (js ''INV-999'')) =
   Some (sampleRecord (js ''U_doc_1'') (js ''U'') (js ''march.pdf'') (js ''INV-100'')) \<and>
   findExistingInvoice asciiToLowerCase
     (workingStore [sampleRecord (js ''U_doc_1'') (js ''U'') (js ''jan.pdf'') (js ''inv-100''),
                    sampleRecord (js ''U_doc_2'') (js ''U'') (js ''feb.pdf'') (js ''INV-100'')])
     (js ''U'') (js ''other.pdf'') (Some (js '' INV-100 '')) =
   Some (sampleRecord (js ''U_doc_2'') (js ''U'') (js ''feb.pdf'') (js ''INV-100''))"
proof -
  let ?one = "workingStore [sampleRecord (js ''U_doc_1'') (js ''U'') (js ''march.pdf'') (js ''INV-100'')]"
  let ?two = "workingStore [sampleRecord (js ''U_doc_1'') (js ''U'') (js ''jan.pdf'') (js ''inv-100''),
                    sampleRecord (js ''U_doc_2'') (js ''U'') (js ''feb.pdf'') (js ''INV-100'')]"
  have ready1: "dbReady ?one" and reads1: "\<forall>q. readFault ?one q = None"
    and ready2: "dbReady ?two" and reads2: "\<forall>q. readFault ?two q = None"
    by (simp_all add: workingStore_def)
  have lower: "\<forall>s. trim (asciiToLowerCase s) = asciiToLowerCase (trim s)"
    by (simp add: trim_asciiToLowerCase)
  have empty: "\<forall>s. (asciiToLowerCase s = []) = (s = [])"
    by (simp add: asciiToLowerCase_def)
  note spec1 = findExistingInvoice_priority_order [OF ready1 reads1 lower empty]
  note spec2 = findExistingInvoice_priority_order [OF ready2 reads2 lower empty]
  show ?thesis
    unfolding spec1 spec2
    by (simp add: findExisting_amended_def sample_defs js_def trim_def
          isWhiteSpace_def asciiToLowerCase_def asciiLower_def isUpperAZ_def)
qed


lemma getDocs_Inr_no_fault: "getDocs fs q = Inr ds \<Longrightarrow> readFault fs q = None"
  by (auto simp: getDocs_def split: option.splits)

lemma filenameLookup_fault:
  assumes "q \<in> set (snd (filenameLookup fs u f issued))" and "readFault fs q \<noteq> None"
    and "\<forall>p\<in>set issued. readFault fs p = None"
  shows "\<exists>e. fst (filenameLookup fs u f issued) = Inl e"
  using assms
  by (auto simp: filenameLookup_def split: sum.splits list.splits dest: getDocs_Inr_no_fault)

lemma try_fault:
  assumes "q \<in> set (snd (findExistingInvoice_try lc fs u f number))" and "readFault fs q \<noteq> None"
  shows "\<exists>e. fst (findExistingInvoice_try lc fs u f number) = Inl e"
proof (cases "dbReady fs")
  case False
  then show ?thesis by (simp add: findExistingInvoice_try_def)
next
  case True
  have direct: "q \<in> set (snd (filenameLookup fs u f [])) \<Longrightarrow> \<exists>e. fst (filenameLookup fs u f []) = Inl e"
    using filenameLookup_fault[of q fs u f "[]"] assms(2) by simp
  show ?thesis
  proof (cases number)
    case None
    then show ?thesis using assms(1) True direct by (auto simp: findExistingInvoice_try_def)
  next
    case (Some n)
    show ?thesis
    proof (cases "n \<noteq> [] \<and> trim n \<noteq> []")
      case False
      then show ?thesis using assms(1) True direct Some by (auto simp: findExistingInvoice_try_def)
    next
      case nb: True
      let ?q1 = "ByInvoiceNumber u (trim n)"
      show ?thesis
      proof (cases "getDocs fs ?q1")
        case (Inl e)
        then show ?thesis using True Some nb by (simp add: findExistingInvoice_try_def)
      next
        case (Inr exact)
        note q1 = getDocs_Inr_no_fault[OF Inr]
        show ?thesis
        proof (cases exact)
          case (Cons d ds)
          then show ?thesis using assms True Some nb Inr q1 by (simp add: findExistingInvoice_try_def)
        next
          case Nil
          show ?thesis
          proof (cases "getDocs fs (ByUser u)")
            case (Inl e)
            then show ?thesis using True Some nb Inr Nil by (simp add: findExistingInvoice_try_def)
          next
            case all: (Inr all)
            note q2 = getDocs_Inr_no_fault[OF all]
            show ?thesis
            proof (cases "scanInvoiceNumber lc n all")
              case (Some d)
              then show ?thesis using assms True \<open>number = Some n\<close> nb Inr Nil all q1 q2
                by (auto simp: findExistingInvoice_try_def)
            next
              case None
              have "\<exists>e. fst (filenameLookup fs u f [?q1, ByUser u]) = Inl e"
              proof (rule filenameLookup_fault[OF _ assms(2)])
                show "q \<in> set (snd (filenameLookup fs u f [?q1, ByUser u]))"
                  using assms(1) True \<open>number = Some n\<close> nb Inr Nil all None
                  by (simp add: findExistingInvoice_try_def)
                show "\<forall>p\<in>set [?q1, ByUser u]. readFault fs p = None"
                  using q1 q2 by simp
              qed
              then show ?thesis using True \<open>number = Some n\<close> nb Inr Nil all None
                by (simp add: findExistingInvoice_try_def)
            qed
          qed
        qed
      qed
    qed
  qed
qed

lemma insertById_split:
  "\<exists>pre post. ds = pre @ post \<and> insertById before new ds = pre @ [new] @ post"
proof (induction ds)
  case Nil
  then show ?case by simp
next
  case (Cons d ds)
  show ?case
  proof (cases "before (id' new) (id' d)")
    case True
    then have "d # ds = [] @ (d # ds) \<and> insertById before new (d # ds) = [] @ [new] @ (d # ds)"
      by simp
    then show ?thesis by blast
  next
    case False
    from Cons obtain pre post where "ds = pre @ post" "insertById before new ds = pre @ [new] @ post"
      by blast
    with False have "d # ds = (d # pre) @ post \<and>
        insertById before new (d # ds) = (d # pre) @ [new] @ post"
      by simp
    then show ?thesis by blast
  qed
qed

lemma save_without_match:
  assumes "findExistingInvoice lc fs u f (invoice_number x) = None"
    and "success (fst (saveInvoiceData nfkc lc now t fs u f x url b))"
  shows "fst (saveInvoiceData nfkc lc now t fs u f x url b) =
           \<lparr> success = True,
             message = js ''Invoice '' @ [34] @ f @ [34] @ js '' saved successfully to database'',
             documentId = Some (generateDocumentId lc u f now) \<rparr>"
    and "documents (snd (saveInvoiceData nfkc lc now t fs u f x url b)) =
           written fs (invoiceData nfkc lc now t None u f x url b)"
  using assms
  by (auto simp: saveInvoiceData_def invoiceData_def Let_def setDocMerge_def
        split: if_splits sum.splits option.splits)

text \<open>
  C6 (fail-open look-up).  When a query that \<open>findExistingInvoice\<close> sends to the
  storage layer throws, the function returns \<^verbatim>\<open>null\<close>; a save that then succeeds
  reports a newly saved record under a freshly generated document id, and where that id is
  not yet in use, the collection afterwards holds the documents it held, in their order,
  and one new document, which is the record of this invoice.
\<close>

theorem lookup_fault_reads_as_no_match:
  assumes "q \<in> set (snd (findExistingInvoice_try lc fs u f number))" and "readFault fs q \<noteq> None"
  shows "findExistingInvoice lc fs u f number = None \<and>
         (\<forall>nfkc now t x url b.
             invoice_number x = number \<and> success (fst (saveInvoiceData nfkc lc now t fs u f x url b)) \<longrightarrow>
             fst (saveInvoiceData nfkc lc now t fs u f x url b) =
               \<lparr> success = True,
                 message = js ''Invoice '' @ [34] @ f @ [34] @ js '' saved successfully to database'',
                 documentId = Some (generateDocumentId lc u f now) \<rparr> \<and>
             (generateDocumentId lc u f now \<notin> set (map id' (documents fs)) \<longrightarrow>
                (\<exists>pre post.
                    documents fs = pre @ post \<and>
                    documents (snd (saveInvoiceData nfkc lc now t fs u f x url b)) =
                      pre @
                      [\<lparr> id' = generateDocumentId lc u f now, userId = u,
                          filename = cleanFilename lc f, originalFilename = f,
                          fileUrl = url, fileSize = b,
                          invoiceNumber = invoice_number x,
                          totalAmount = total_amount x,
                          invoiceDate = invoice_date x,
                          vendorName =
                            Some (if standardizeVendorName nfkc (company_name x) = [] then js ''Unknown''
                                  else standardizeVendorName nfkc (company_name x)),
                          processingMetadata = processing_metadata x,
                          extractedData = x,
                          createdAt = t, updatedAt = t \<rparr>] @
                      post)))"
proof -
  have none: "findExistingInvoice lc fs u f number = None"
    using try_fault[OF assms] by (auto simp: findExistingInvoice_def)
  have store: "\<exists>pre post.
        documents fs = pre @ post \<and>
        documents (snd (saveInvoiceData nfkc lc now t fs u f x url b)) =
          pre @
          [\<lparr> id' = generateDocumentId lc u f now, userId = u,
              filename = cleanFilename lc f, originalFilename = f,
              fileUrl = url, fileSize = b,
              invoiceNumber = invoice_number x,
              totalAmount = total_amount x,
              invoiceDate = invoice_date x,
              vendorName =
                Some (if standardizeVendorName nfkc (company_name x) = [] then js ''Unknown''
                      else standardizeVendorName nfkc (company_name x)),
              processingMetadata = processing_metadata x,
              extractedData = x,
              createdAt = t, updatedAt = t \<rparr>] @
          post"
    if num: "invoice_number x = number"
      and ok: "success (fst (saveInvoiceData nfkc lc now t fs u f x url b))"
      and new: "generateDocumentId lc u f now \<notin> set (map id' (documents fs))"
    for nfkc now t and x :: "'a ExtractedInvoice" and url b
  proof -
    let ?new = "invoiceData nfkc lc now t None u f x url b"
    have shape: "?new =
        \<lparr> id' = generateDocumentId lc u f now, userId = u,
          filename = cleanFilename lc f, originalFilename = f,
          fileUrl = url, fileSize = b,
          invoiceNumber = invoice_number x,
          totalAmount = total_amount x,
          invoiceDate = invoice_date x,
          vendorName =
            Some (if standardizeVendorName nfkc (company_name x) = [] then js ''Unknown''
                  else standardizeVendorName nfkc (company_name x)),
          processingMetadata = processing_metadata x,
          extractedData = x,
          createdAt = t, updatedAt = t \<rparr>"
      by (simp add: invoiceData_def indexedVendorName_def orString_def)
    have "documents (snd (saveInvoiceData nfkc lc now t fs u f x url b)) = written fs ?new"
      using none num ok by (intro save_without_match(2)) simp_all
    also have "\<dots> = insertById (idBefore fs) ?new (documents fs)"
      using new by (simp add: written_def invoiceData_def)
    finally show ?thesis
      using insertById_split[of "documents fs" "idBefore fs" ?new] unfolding shape by simp
  qed
  from none save_without_match(1)[of lc fs u f] store show ?thesis by blast
qed

theorem lookup_fault_reads_as_no_match_witness:
  "findExistingInvoice asciiToLowerCase
     (scanFails (js ''U'')
        (workingStore [sampleRecord (js ''U_doc_1'') (js ''U'') (js ''march.pdf'') (js ''INV-100'')]))
     (js ''U'') (js ''other.pdf'') (Some (js ''inv-100'')) = None \<and>
   fst (saveInvoiceData id asciiToLowerCase 1700000000000 7
     (scanFails (js ''U'')
        (workingStore [sampleRecord (js ''U_doc_1'') (js ''U'') (js ''march.pdf'') (js ''INV-100'')]))
     (js ''U'') (js ''other.pdf'') (sampleInvoice (Some (js ''inv-100'')) (Some (js ''Acme Inc'')))
     (Some (js ''https://files.example/other.pdf'')) (Some 2048)) =
     \<lparr> success = True,
       message = js ''Invoice '' @ [34] @ js ''other.pdf'' @ [34] @ js '' saved successfully to database'',
       documentId = Some (js ''U_other_pdf_1700000000000'') \<rparr> \<and>
   documents (snd (saveInvoiceData id asciiToLowerCase 1700000000000 7
     (scanFails (js ''U'')
        (workingStore [sampleRecord (js ''U_doc_1'') (js ''U'') (js ''march.pdf'') (js ''INV-100'')]))
     (js ''U'') (js ''other.pdf'') (sampleInvoice (Some (js ''inv-100'')) (Some (js ''Acme Inc'')))
     (Some (js ''https://files.example/other.pdf'')) (Some 2048))) =
     [sampleRecord (js ''U_doc_1'') (js ''U'') (js ''march.pdf'') (js ''INV-100''),
      \<lparr> id' = js ''U_other_pdf_1700000000000'', userId = js ''U'',
        filename = js ''other_pdf'', originalFilename = js ''other.pdf'',
        fileUrl = Some (js ''https://files.example/other.pdf''), fileSize = Some 2048,
        invoiceNumber = Some (js ''inv-100''), totalAmount = Some 100,
        invoiceDate = Some (js ''2024-01-31''), vendorName = Some (js ''Acme Inc''),
        processingMetadata = Some (),
        extractedData = sampleInvoice (Some (js ''inv-100'')) (Some (js ''Acme Inc'')),
        createdAt = 7, updatedAt = 7 \<rparr>]"
proof -
  let ?old = "sampleRecord (js ''U_doc_1'') (js ''U'') (js ''march.pdf'') (js ''INV-100'')"
  let ?fs = "scanFails (js ''U'') (workingStore [?old])"
  let ?x = "sampleInvoice (Some (js ''inv-100'')) (Some (js ''Acme Inc''))"
  let ?S = "saveInvoiceData id asciiToLowerCase 1700000000000 7 ?fs (js ''U'') (js ''other.pdf'') ?x
     (Some (js ''https://files.example/other.pdf'')) (Some 2048)"
  have issued: "ByUser (js ''U'') \<in>
      set (snd (findExistingInvoice_try asciiToLowerCase ?fs (js ''U'') (js ''other.pdf'') (Some (js ''inv-100''))))"
    by (simp add: findExistingInvoice_try_def getDocs_def scanFails_def sample_defs matches_def js_def trim_def
          isWhiteSpace_def)
  have fault: "readFault ?fs (ByUser (js ''U'')) \<noteq> None"
    by (simp add: scanFails_def)
  note main = lookup_fault_reads_as_no_match [OF issued fault]
  have none: "findExistingInvoice asciiToLowerCase ?fs (js ''U'') (js ''other.pdf'') (invoice_number ?x) = None"
    using main by (simp add: sampleInvoice_def)
  have gen: "generateDocumentId asciiToLowerCase (js ''U'') (js ''other.pdf'') 1700000000000 = js ''U_other_pdf_1700000000000''"
    by (simp add: generateDocumentId_def cleanFilename_def js_def asciiToLowerCase_def asciiLower_def
          isUpperAZ_def isLowerAZ_def isDigit09_def)
  have clean: "cleanFilename asciiToLowerCase (js ''other.pdf'') = js ''other_pdf''"
    by (simp add: cleanFilename_def js_def asciiToLowerCase_def asciiLower_def
          isUpperAZ_def isLowerAZ_def isDigit09_def)
  have vendor: "indexedVendorName id ?x = js ''Acme Inc''"
    by (simp add: indexedVendorName_def orString_def sampleInvoice_def normalizer_defs)
  have new: "invoiceData id asciiToLowerCase 1700000000000 7 None (js ''U'') (js ''other.pdf'') ?x
       (Some (js ''https://files.example/other.pdf'')) (Some 2048) =
      \<lparr> id' = js ''U_other_pdf_1700000000000'', userId = js ''U'',
        filename = js ''other_pdf'', originalFilename = js ''other.pdf'',
        fileUrl = Some (js ''https://files.example/other.pdf''), fileSize = Some 2048,
        invoiceNumber = Some (js ''inv-100''), totalAmount = Some 100,
        invoiceDate = Some (js ''2024-01-31''), vendorName = Some (js ''Acme Inc''),
        processingMetadata = Some (), extractedData = ?x, createdAt = 7, updatedAt = 7 \<rparr>"
    unfolding invoiceData_def gen clean vendor by (simp add: sampleInvoice_def)
  have before: "\<not> codeUnitsBefore (js ''U_other_pdf_1700000000000'') (js ''U_doc_1'')"
    by (simp add: js_def)
  have S: "?S = (\<lparr> success = True,
       message = js ''Invoice '' @ [34] @ js ''other.pdf'' @ [34] @ js '' saved successfully to database'',
       documentId = Some (js ''U_other_pdf_1700000000000'') \<rparr>,
       ?fs\<lparr> documents := [?old,
        \<lparr> id' = js ''U_other_pdf_1700000000000'', userId = js ''U'',
        filename = js ''other_pdf'', originalFilename = js ''other.pdf'',
        fileUrl = Some (js ''https://files.example/other.pdf''), fileSize = Some 2048,
        invoiceNumber = Some (js ''inv-100''), totalAmount = Some 100,
        invoiceDate = Some (js ''2024-01-31''), vendorName = Some (js ''Acme Inc''),
        processingMetadata = Some (), extractedData = ?x, createdAt = 7, updatedAt = 7 \<rparr>] \<rparr>)"
    unfolding saveInvoiceData_def none Let_def new
    using before
    by (simp add: setDocMerge_def undefinedField_def written_def scanFails_def workingStore_def
          sampleRecord_def js_def)
  have ok: "success (fst ?S)" unfolding S by simp
  have num: "invoice_number ?x = Some (js ''inv-100'')" by (simp add: sampleInvoice_def)
  from main num ok have "fst ?S = \<lparr> success = True,
       message = js ''Invoice '' @ [34] @ js ''other.pdf'' @ [34] @ js '' saved successfully to database'',
       documentId = Some (generateDocumentId asciiToLowerCase (js ''U'') (js ''other.pdf'') 1700000000000) \<rparr>"
    by blast
  then have r: "fst ?S = \<lparr> success = True,
       message = js ''Invoice '' @ [34] @ js ''other.pdf'' @ [34] @ js '' saved successfully to database'',
       documentId = Some (js ''U_other_pdf_1700000000000'') \<rparr>"
    unfolding gen .
  have d: "documents (snd ?S) = [?old,
        \<lparr> id' = js ''U_other_pdf_1700000000000'', userId = js ''U'',
        filename = js ''other_pdf'', originalFilename = js ''other.pdf'',
        fileUrl = Some (js ''https://files.example/other.pdf''), fileSize = Some 2048,
        invoiceNumber = Some (js ''inv-100''), totalAmount = Some 100,
        invoiceDate = Some (js ''2024-01-31''), vendorName = Some (js ''Acme Inc''),
        processingMetadata = Some (), extractedData = ?x, createdAt = 7, updatedAt = 7 \<rparr>]"
    unfolding S by simp
  from main r d show ?thesis by blast
qed


lemma mergeInto_simps [simp]:
  "id' (mergeInto fs old new) = id' new"
  "userId (mergeInto fs old new) = userId new"
  "filename (mergeInto fs old new) = filename new"
  "originalFilename (mergeInto fs old new) = originalFilename new"
  "fileUrl (mergeInto fs old new) = fileUrl new"
  "fileSize (mergeInto fs old new) = fileSize new"
  "createdAt (mergeInto fs old new) = createdAt new"
  "updatedAt (mergeInto fs old new) = updatedAt new"
  "extractedData (mergeInto fs old new) = mergeMaps fs (extractedData old) (extractedData new)"
  "invoiceNumber (mergeInto fs old new) = invoiceNumber new"
  "vendorName (mergeInto fs old new) = vendorName new"
  "totalAmount (mergeInto fs old new) = totalAmount new"
  "invoiceDate (mergeInto fs old new) = invoiceDate new"
  by (simp_all add: mergeInto_def)

lemma set_insertById [simp]: "set (insertById before new ds) = insert new (set ds)"
  by (induction ds) auto


lemma written_has: "\<exists>d\<in>set (written fs new). id' d = id' new"
proof (cases "id' new \<in> set (map id' (documents fs))")
  case True
  then obtain d where d: "d \<in> set (documents fs)" "id' d = id' new" by auto
  have "written fs new = map (\<lambda>d. if id' d = id' new then mergeInto fs d new else d) (documents fs)"
    using True by (simp add: written_def)
  then have "mergeInto fs d new \<in> set (written fs new)"
    using d by (simp add: image_iff) (rule bexI[of _ d], simp_all)
  then show ?thesis by (rule bexI[rotated]) simp
next
  case False
  then show ?thesis by (simp add: written_def)
qed

lemma written_cases:
  assumes "d \<in> set (written fs new)"
  shows "(d \<in> set (documents fs) \<and> id' d \<noteq> id' new) \<or>
         (id' d = id' new \<and>
          (d = new \<or> (\<exists>old\<in>set (documents fs). id' old = id' new \<and> d = mergeInto fs old new)))"
proof (cases "id' new \<in> set (map id' (documents fs))")
  case True
  then have "written fs new = map (\<lambda>d. if id' d = id' new then mergeInto fs d new else d) (documents fs)"
    by (simp add: written_def)
  with assms obtain old where old: "old \<in> set (documents fs)"
      "d = (if id' old = id' new then mergeInto fs old new else old)"
    by (auto simp: image_iff)
  show ?thesis
  proof (cases "id' old = id' new")
    case True
    with old show ?thesis by auto
  next
    case False
    with old show ?thesis by simp
  qed
next
  case False
  with assms have "d \<in> set (documents fs) \<or> d = new" by (auto simp: written_def)
  moreover have "d \<in> set (documents fs) \<Longrightarrow> id' d \<noteq> id' new" using False by (simp add: image_iff) metis
  ultimately show ?thesis by blast
qed

lemma invoiceData_simps [simp]:
  "userId (invoiceData nfkc lc now t ex u f x url b) = u"
  "filename (invoiceData nfkc lc now t ex u f x url b) = cleanFilename lc f"
  "originalFilename (invoiceData nfkc lc now t ex u f x url b) = f"
  "fileUrl (invoiceData nfkc lc now t ex u f x url b) = url"
  "fileSize (invoiceData nfkc lc now t ex u f x url b) = b"
  "invoiceNumber (invoiceData nfkc lc now t ex u f x url b) = invoice_number x"
  "totalAmount (invoiceData nfkc lc now t ex u f x url b) = total_amount x"
  "invoiceDate (invoiceData nfkc lc now t ex u f x url b) = invoice_date x"
  "vendorName (invoiceData nfkc lc now t ex u f x url b) = Some (indexedVendorName nfkc x)"
  "processingMetadata (invoiceData nfkc lc now t ex u f x url b) = processing_metadata x"
  "extractedData (invoiceData nfkc lc now t ex u f x url b) = x"
  "updatedAt (invoiceData nfkc lc now t ex u f x url b) = t"
  "createdAt (invoiceData nfkc lc now t None u f x url b) = t"
  "createdAt (invoiceData nfkc lc now t (Some e) u f x url b) = createdAt e"
  "id' (invoiceData nfkc lc now t None u f x url b) = generateDocumentId lc u f now"
  "id' (invoiceData nfkc lc now t (Some e) u f x url b) = orString (id' e) (generateDocumentId lc u f now)"
  by (simp_all add: invoiceData_def)

lemma undefinedField_invoiceData:
  "undefinedField (invoiceData nfkc lc now t ex u f x url b) = None \<longleftrightarrow>
     url \<noteq> None \<and> b \<noteq> None \<and> invoice_number x \<noteq> None \<and> total_amount x \<noteq> None \<and>
     invoice_date x \<noteq> None \<and> processing_metadata x \<noteq> None"
  by (simp add: undefinedField_def)

lemma save_success:
  assumes "success (fst (saveInvoiceData nfkc lc now t fs u f x url b))"
  shows "saveInvoiceData nfkc lc now t fs u f x url b =
     (\<lparr> success = True,
        message =
          (if findExistingInvoice lc fs u f (invoice_number x) \<noteq> None
           then js ''Invoice '' @ [34] @ f @ [34] @ js '' updated successfully in database''
           else js ''Invoice '' @ [34] @ f @ [34] @ js '' saved successfully to database''),
        documentId = Some (id' (invoiceData nfkc lc now t (findExistingInvoice lc fs u f (invoice_number x)) u f x url b)) \<rparr>,
      fs\<lparr> documents := written fs
              (invoiceData nfkc lc now t (findExistingInvoice lc fs u f (invoice_number x)) u f x url b) \<rparr>)"
  using assms
  by (simp add: saveInvoiceData_def Let_def setDocMerge_def split: if_splits sum.splits option.splits)

text \<open>
  A commit succeeds on a storage layer that is ready and accepts the write, when the
  written object has no field that is \<^verbatim>\<open>undefined\<close>.
\<close>

lemma save_no_fault:
  assumes "dbReady fs" and "\<forall>d. writeFault fs d = None"
    and "url \<noteq> None" and "b \<noteq> None" and "invoice_number x \<noteq> None" and "total_amount x \<noteq> None"
    and "invoice_date x \<noteq> None" and "processing_metadata x \<noteq> None"
  shows "success (fst (saveInvoiceData nfkc lc now t fs u f x url b))"
proof -
  have "undefinedField (invoiceData nfkc lc now t (findExistingInvoice lc fs u f (invoice_number x))
          u f x url b) = None"
    using assms(3-8) by (simp add: undefinedField_invoiceData)
  then show ?thesis
    using assms(1,2) by (simp add: saveInvoiceData_def Let_def setDocMerge_def)
qed

text \<open>
  And it fails, leaving the collection as it was, when a field is \<^verbatim>\<open>undefined\<close>: here
  without a file size.
\<close>

lemma save_without_file_size_fails:
  "dbReady fs \<Longrightarrow> url \<noteq> None \<Longrightarrow>
   saveInvoiceData nfkc lc now t fs u f x url None =
     (\<lparr> success = False,
        message = js ''Failed to save invoice data: '' @
                  js ''Function setDoc() called with invalid data. Unsupported field value: undefined (found in field fileSize in document invoices/'' @
                  id' (invoiceData nfkc lc now t (findExistingInvoice lc fs u f (invoice_number x)) u f x url None) @
                  js '')'',
        documentId = None \<rparr>, fs)"
  by (auto simp: saveInvoiceData_def Let_def setDocMerge_def undefinedField_def unsupportedUndefined_def
        messageOf_def js_def)

lemma written_vendorName:
  assumes "d \<in> set (written fs new)" and "id' d = id' new" and "vendorName new = Some v"
  shows "vendorName d = Some v"
proof -
  from written_cases[OF assms(1)] assms(2)
  have "d = new \<or> (\<exists>old\<in>set (documents fs). id' old = id' new \<and> d = mergeInto fs old new)" by blast
  then show ?thesis using assms(3) by auto
qed

lemma update_success:
  assumes "success (fst (updateInvoiceData nfkc t fs docId u x))"
  shows "(\<exists>d\<in>set (documents (snd (updateInvoiceData nfkc t fs docId u x))). id' d = docId) \<and>
         (\<forall>d\<in>set (documents (snd (updateInvoiceData nfkc t fs docId u x))).
             id' d = docId \<longrightarrow> vendorName d = Some (indexedVendorName nfkc x))"
proof -
  define change :: "'a StoredInvoiceData \<Rightarrow> 'a StoredInvoiceData" where
    "change = (\<lambda>d. d\<lparr> invoiceNumber := invoice_number x,
                        totalAmount := total_amount x,
                        invoiceDate := invoice_date x,
                        vendorName := Some (indexedVendorName nfkc x),
                        extractedData := x,
                        updatedAt := t \<rparr>)"
  have ch: "\<And>d. id' (change d) = id' d" "\<And>d. vendorName (change d) = Some (indexedVendorName nfkc x)"
    by (simp_all add: change_def)
  from assms obtain old where old: "find (\<lambda>d. id' d = docId) (documents fs) = Some old"
    by (auto simp: updateInvoiceData_def updateDoc_def Let_def split: if_splits option.splits)
  then have mem: "old \<in> set (documents fs)" "id' old = docId"
    by (auto simp: find_Some_iff)
  have docs: "documents (snd (updateInvoiceData nfkc t fs docId u x)) =
      map (\<lambda>d. if id' d = docId then change d else d) (documents fs)"
    using assms old
    by (simp add: updateInvoiceData_def updateDoc_def Let_def change_def
             split: if_splits option.splits)
  have ex: "\<exists>d\<in>set (map (\<lambda>d. if id' d = docId then change d else d) (documents fs)). id' d = docId"
  proof (rule bexI[of _ "change old"])
    show "id' (change old) = docId" using mem ch by simp
    show "change old \<in> set (map (\<lambda>d. if id' d = docId then change d else d) (documents fs))"
      unfolding set_map
    proof (rule image_eqI[where x = old])
      show "change old = (if id' old = docId then change old else old)" using mem by simp
      show "old \<in> set (documents fs)" by (rule mem(1))
    qed
  qed
  have all: "\<forall>d\<in>set (map (\<lambda>d. if id' d = docId then change d else d) (documents fs)).
      id' d = docId \<longrightarrow> vendorName d = Some (indexedVendorName nfkc x)"
  proof (intro ballI impI)
    fix d assume d: "d \<in> set (map (\<lambda>d. if id' d = docId then change d else d) (documents fs))"
      and i: "id' d = docId"
    then obtain o' where o: "o' \<in> set (documents fs)" "d = (if id' o' = docId then change o' else o')"
      by (auto simp: image_iff)
    show "vendorName d = Some (indexedVendorName nfkc x)"
    proof (cases "id' o' = docId")
      case True
      with o ch show ?thesis by simp
    next
      case False
      with o i show ?thesis by simp
    qed
  qed
  from ex all show ?thesis unfolding docs by blast
qed

text \<open>
  C5, amended: in every record that \<open>saveInvoiceData\<close> or \<open>updateInvoiceData\<close> writes,
  the vendor-name index field is the output of \<open>standardizeVendorName\<close> on the extracted
  company name when that output is not empty, and the literal \<^verbatim>\<open>Unknown\<close> when it is.
\<close>

theorem stored_vendor_name_is_normalized_or_unknown:
  "(success (fst (saveInvoiceData nfkc lc now t fs u f x url b)) \<longrightarrow>
      (\<exists>d\<in>set (documents (snd (saveInvoiceData nfkc lc now t fs u f x url b))).
          Some (id' d) = documentId (fst (saveInvoiceData nfkc lc now t fs u f x url b))) \<and>
      (\<forall>d\<in>set (documents (snd (saveInvoiceData nfkc lc now t fs u f x url b))).
          Some (id' d) = documentId (fst (saveInvoiceData nfkc lc now t fs u f x url b)) \<longrightarrow>
          vendorName d =
            Some (if standardizeVendorName nfkc (company_name x) = [] then js ''Unknown''
                  else standardizeVendorName nfkc (company_name x)))) \<and>
   (success (fst (updateInvoiceData nfkc t fs docId u x)) \<longrightarrow>
      (\<exists>d\<in>set (documents (snd (updateInvoiceData nfkc t fs docId u x))). id' d = docId) \<and>
      (\<forall>d\<in>set (documents (snd (updateInvoiceData nfkc t fs docId u x))).
          id' d = docId \<longrightarrow>
          vendorName d =
            Some (if standardizeVendorName nfkc (company_name x) = [] then js ''Unknown''
                  else standardizeVendorName nfkc (company_name x))))"
proof -
  have v: "indexedVendorName nfkc x =
      (if standardizeVendorName nfkc (company_name x) = [] then js ''Unknown''
       else standardizeVendorName nfkc (company_name x))"
    by (simp add: indexedVendorName_def orString_def)
  let ?S = "saveInvoiceData nfkc lc now t fs u f x url b"
  let ?new = "invoiceData nfkc lc now t (findExistingInvoice lc fs u f (invoice_number x)) u f x url b"
  have save: "(\<exists>d\<in>set (documents (snd ?S)). Some (id' d) = documentId (fst ?S)) \<and>
      (\<forall>d\<in>set (documents (snd ?S)). Some (id' d) = documentId (fst ?S) \<longrightarrow>
          vendorName d = Some (indexedVendorName nfkc x))" if ok: "success (fst ?S)"
  proof -
    have docs: "documents (snd ?S) = written fs ?new" and doc: "documentId (fst ?S) = Some (id' ?new)"
      by (simp_all add: save_success[OF ok])
    have "\<exists>d\<in>set (written fs ?new). id' d = id' ?new" by (rule written_has)
    moreover have "\<forall>d\<in>set (written fs ?new). id' d = id' ?new \<longrightarrow>
        vendorName d = Some (indexedVendorName nfkc x)"
      using written_vendorName[of _ fs ?new "indexedVendorName nfkc x"] by simp
    ultimately show ?thesis unfolding docs doc by simp
  qed
  from save update_success[of nfkc t fs docId u x] show ?thesis unfolding v by blast
qed

theorem stored_vendor_name_is_normalized_or_unknown_witness:
  "success (fst (saveInvoiceData id asciiToLowerCase 1700000000000 7 (workingStore [])
       (js ''U'') (js ''a.pdf'') (sampleInvoice (Some (js ''INV-1'')) (Some (js '' ACME,  inc. '')))
       (Some (js ''https://files.example/a.pdf'')) (Some 2048))) \<and>
   (\<exists>d\<in>set (documents (snd (saveInvoiceData id asciiToLowerCase 1700000000000 7 (workingStore [])
       (js ''U'') (js ''a.pdf'') (sampleInvoice (Some (js ''INV-1'')) (Some (js '' ACME,  inc. '')))
       (Some (js ''https://files.example/a.pdf'')) (Some 2048)))).
      vendorName d = Some (js ''Acme Inc''))"
proof -
  let ?x = "sampleInvoice (Some (js ''INV-1'')) (Some (js '' ACME,  inc. ''))"
  let ?S = "saveInvoiceData id asciiToLowerCase 1700000000000 7 (workingStore [])
       (js ''U'') (js ''a.pdf'') ?x (Some (js ''https://files.example/a.pdf'')) (Some 2048)"
  have ok: "success (fst ?S)"
    by (rule save_no_fault) (simp_all add: workingStore_def sampleInvoice_def)
  have v: "standardizeVendorName id (company_name ?x) = js ''Acme Inc''"
    by (simp add: sampleInvoice_def normalizer_defs)
  have ne: "js ''Acme Inc'' \<noteq> []" by (simp add: js_def)
  note main = stored_vendor_name_is_normalized_or_unknown
         [of id asciiToLowerCase 1700000000000 7 "workingStore []" "js ''U''" "js ''a.pdf''" ?x
             "Some (js ''https://files.example/a.pdf'')" "Some 2048"]
  from main ok have a:
    "(\<exists>d\<in>set (documents (snd ?S)). Some (id' d) = documentId (fst ?S)) \<and>
     (\<forall>d\<in>set (documents (snd ?S)). Some (id' d) = documentId (fst ?S) \<longrightarrow>
        vendorName d = Some (if standardizeVendorName id (company_name ?x) = [] then js ''Unknown''
                             else standardizeVendorName id (company_name ?x)))"
    by blast
  then obtain d where d: "d \<in> set (documents (snd ?S))" "Some (id' d) = documentId (fst ?S)"
    by blast
  with a have "vendorName d = Some (if standardizeVendorName id (company_name ?x) = [] then js ''Unknown''
                             else standardizeVendorName id (company_name ?x))"
    by blast
  then have "vendorName d = Some (js ''Acme Inc'')"
    unfolding v using ne by simp
  with d(1) ok show ?thesis by blast
qed

text \<open>
  C5 as stated fails: without a company name the normalizer returns the empty string, and
  the stored field is \<^verbatim>\<open>Unknown\<close>.
\<close>

theorem missing_vendor_is_stored_as_Unknown:
  "map vendorName (documents (snd (saveInvoiceData id asciiToLowerCase 1700000000000 7 (workingStore [])
       (js ''U'') (js ''a.pdf'') (sampleInvoice (Some (js ''INV-1'')) None)
       (Some (js ''https://files.example/a.pdf'')) (Some 2048)))) = [Some (js ''Unknown'')] \<and>
   standardizeVendorName id (company_name (sampleInvoice (Some (js ''INV-1'')) None)) = []"
  by (simp add: saveInvoiceData_def Let_def setDocMerge_def undefinedField_def written_def workingStore_def
        invoiceData_def indexedVendorName_def orString_def sampleInvoice_def standardizeVendorName_def)







section \<open>Properties of the batch orchestrator\<close>

lemma processBatch_fulfilled: "\<exists>rs. processBatch files r = Fulfilled rs"
  by (simp add: processBatch_def split: prod.splits option.splits)

text \<open>The outcomes that \<open>processBatch\<close> resolves with.\<close>

lemma settled_processBatch:
  "settledResults batch (processBatch files r) =
     (case tryFetch files r of
        (None, rs) \<Rightarrow> rs
      | (Some e, rs) \<Rightarrow> rs @ map (failedResult (failureReason e)) files)"
  by (simp add: processBatch_def settledResults_def split: prod.splits option.splits)

lemma slice_step: "slice xs i (i + B) = take B (drop i xs)"
  by (simp add: slice_def drop_take)

lemma chunks_Nil [simp]: "chunks B [] = []"
  by (subst chunks.simps) simp

lemma chunks_zero [simp]: "chunks 0 xs = []"
  by (subst chunks.simps) simp

lemma chunks_Cons: "0 < B \<Longrightarrow> xs \<noteq> [] \<Longrightarrow> chunks B xs = take B xs # chunks B (drop B xs)"
  by (subst chunks.simps) simp

lemma chunks_drop:
  "0 < B \<Longrightarrow> i < length xs \<Longrightarrow> chunks B (drop i xs) = take B (drop i xs) # chunks B (drop (i + B) xs)"
  by (simp add: chunks_Cons add.commute)

lemma createBatches_chunks:
  assumes "0 < B"
  shows "createBatches B files i acc = Some (acc @ chunks B (drop i files))"
proof (induction "length files - i" arbitrary: i acc rule: less_induct)
  case less
  show ?case
  proof (cases "i < length files")
    case True
    have "length files - (i + B) < length files - i" using True assms by simp
    from less[OF this]
    have "createBatches B files (i + B) (acc @ [slice files i (i + B)]) =
        Some ((acc @ [slice files i (i + B)]) @ chunks B (drop (i + B) files))" .
    then show ?thesis
      using True assms
      by (subst createBatches.simps) (simp add: slice_step chunks_drop)
  next
    case False
    then show ?thesis
      by (subst createBatches.simps) simp
  qed
qed

lemma concat_chunks: "0 < B \<Longrightarrow> concat (chunks B xs) = xs"
proof (induction B xs rule: chunks.induct)
  case (1 B xs)
  show ?case
  proof (cases "xs = []")
    case True
    then show ?thesis by simp
  next
    case False
    with 1 show ?thesis by (simp add: chunks_Cons)
  qed
qed

lemma chunks_sizes: "b \<in> set (chunks B xs) \<Longrightarrow> b \<noteq> [] \<and> length b \<le> B"
proof (induction B xs rule: chunks.induct)
  case (1 B xs)
  show ?case
  proof (cases "B = 0 \<or> xs = []")
    case True
    with 1(2) show ?thesis by auto
  next
    case False
    with 1(2) have "b = take B xs \<or> b \<in> set (chunks B (drop B xs))"
      by (simp add: chunks_Cons)
    then show ?thesis using False 1(1) by auto
  qed
qed

lemma map_enumerate:
  "map f (enumerate 0 xs) = map (\<lambda>j. f (j, xs ! j)) [0..<length xs]"
  by (rule nth_equalityI) (simp_all add: nth_enumerate_eq)

lemma wave_eq:
  "wave C rs batches i st =
     (fst st @ concat (map (\<lambda>k. settledResults (batches ! k) (processBatch (batches ! k) (rs k)))
                           [i..<min (i + C) (length batches)]),
      snd st @ map ParseMultiple (take C (drop i batches)))"
proof -
  let ?cur = "take C (drop i batches)"
  let ?F = "\<lambda>k. settledResults (batches ! k) (processBatch (batches ! k) (rs k))"
  have len: "length ?cur = min (i + C) (length batches) - i" by auto
  have nth: "?cur ! j = batches ! (i + j)" if "j < length ?cur" for j
  proof -
    from that have "j < C" and "i \<le> length batches" by auto
    then show ?thesis by (simp add: nth_drop)
  qed
  have a: "map (\<lambda>(index, batch). processBatch batch (rs (i + index))) (enumerate 0 ?cur) =
        map (\<lambda>j. processBatch (batches ! (i + j)) (rs (i + j))) [0..<length ?cur]"
    unfolding map_enumerate
  proof (rule map_cong[OF refl])
    fix j assume "j \<in> set [0..<length ?cur]"
    then have "j < length ?cur" by (simp only: set_upt atLeastLessThan_iff)
    from nth[OF this] show "(case (j, ?cur ! j) of (index, batch) \<Rightarrow> processBatch batch (rs (i + index))) =
        processBatch (batches ! (i + j)) (rs (i + j))"
      by (simp only: prod.case)
  qed
  have b: "concat (map (\<lambda>(index, result). settledResults (batches ! (i + index)) result)
        (enumerate 0 (map (\<lambda>j. processBatch (batches ! (i + j)) (rs (i + j))) [0..<length ?cur]))) =
      concat (map (\<lambda>j. ?F (i + j)) [0..<length ?cur])"
    unfolding map_enumerate by (rule arg_cong[where f = concat], rule map_cong) simp_all
  have shift: "map ?F [i..<i + n] = map (\<lambda>j. ?F (i + j)) [0..<n]" for n
  proof -
    have e: "[i..<i + n] = map (\<lambda>j. i + j) [0..<n]"
      using map_add_upt[of i n] by (simp add: add.commute)
    show ?thesis unfolding e map_map comp_def ..
  qed
  have c: "map (\<lambda>j. ?F (i + j)) [0..<length ?cur] = map ?F [i..<min (i + C) (length batches)]"
  proof (cases "i \<le> length batches")
    case True
    then have "i + length ?cur = min (i + C) (length batches)" by auto
    with shift[of "length ?cur"] show ?thesis by simp
  next
    case False
    then show ?thesis by simp
  qed
  show ?thesis
    unfolding wave_def Let_def slice_step a b c by simp
qed

lemma runWaves_eq:
  assumes "0 < C"
  shows "runWaves C rs batches i st =
     Some (fst st @ concat (map (\<lambda>k. settledResults (batches ! k) (processBatch (batches ! k) (rs k)))
                                [i..<length batches]),
           snd st @ map ParseMultiple (drop i batches))"
proof (induction "length batches - i" arbitrary: i st rule: less_induct)
  case less
  let ?F = "\<lambda>k. settledResults (batches ! k) (processBatch (batches ! k) (rs k))"
  show ?case
  proof (cases "i < length batches")
    case True
    have "length batches - (i + C) < length batches - i" using True assms by simp
    from less[OF this]
    have step: "runWaves C rs batches (i + C) (wave C rs batches i st) =
        Some (fst (wave C rs batches i st) @ concat (map ?F [i + C..<length batches]),
              snd (wave C rs batches i st) @ map ParseMultiple (drop (i + C) batches))" .
    have idx: "[i..<min (i + C) (length batches)] @ [i + C..<length batches] = [i..<length batches]"
    proof (cases "i + C \<le> length batches")
      case True
      then show ?thesis using upt_add_eq_append[of i "i + C" "length batches - (i + C)"] by (simp add: min_def)
    next
      case False
      then show ?thesis by (simp add: min_def)
    qed
    have "concat (map ?F [i..<min (i + C) (length batches)]) @ concat (map ?F [i + C..<length batches]) =
          concat (map ?F [i..<length batches])"
      unfolding concat_append[symmetric] map_append[symmetric] idx ..
    moreover have "map ParseMultiple (take C (drop i batches)) @ map ParseMultiple (drop (i + C) batches) =
          map ParseMultiple (drop i batches)"
      using append_take_drop_id[of C "drop i batches"]
      unfolding map_append[symmetric] by (simp add: add.commute)
    moreover note step' = step[unfolded wave_eq fst_conv snd_conv]
    ultimately show ?thesis
      using True
      by (subst runWaves.simps) (simp add: wave_eq)
  next
    case False
    then show ?thesis by (subst runWaves.simps) simp
  qed
qed

text \<open>A valid request to a configured and healthy backend runs all batches.\<close>

lemma POST_with_runs:
  assumes "0 < B" and "0 < C" and "files \<noteq> []" and "validateFiles files = None"
    and "backendUrl env = Some url" and "url \<noteq> []" and "health env = Inr st" and "responseOk st"
  shows "POST_with B C env (Inr files) =
     Some (batchReport files (chunks B files)
             (concat (map (\<lambda>k. settledResults (chunks B files ! k)
                                  (processBatch (chunks B files ! k) (replies env k)))
                          [0..<length (chunks B files)])),
           HealthCheck # map ParseMultiple (chunks B files))"
  using assms
  by (simp add: POST_with_def createBatches_chunks[OF assms(1)] runWaves_eq[OF assms(2)])

lemma validateFiles_rejects:
  "\<exists>f\<in>set files. file_type f \<noteq> js ''application/pdf'' \<or> maxFileSize < file_size f \<Longrightarrow>
   \<exists>m. validateFiles files = Some m"
  by (induction files) auto

text \<open>
  C8 (validation before any network call).  When a file of the submission has another
  content type than \<^verbatim>\<open>application/pdf\<close> or more than 5 MiB, both batch routes answer
  with one error of status 400 and have issued no network call.
\<close>

theorem invalid_submission_is_rejected_before_any_call:
  assumes "\<exists>f\<in>set files. file_type f \<noteq> js ''application/pdf'' \<or> maxFileSize < file_size f"
  shows "\<exists>m. POST env (Inr files) = Some (errorResponse 400 m, []) \<and>
             POST_multiple env (Inr files) = (multipleError 400 m, [])"
proof -
  from assms have ne: "files \<noteq> []" by auto
  from validateFiles_rejects[OF assms] obtain m where "validateFiles files = Some m" ..
  with ne show ?thesis
    by (intro exI[of _ m]) (simp add: POST_def POST_with_def POST_multiple_def)
qed

theorem invalid_submission_is_rejected_before_any_call_witness:
  "\<exists>m. POST (workingBackend (twoByTwo (okReply [''f3.pdf'', ''f4.pdf''])))
          (Inr [pdf ''f1.pdf'', tooLarge ''f2.pdf'']) = Some (errorResponse 400 m, []) \<and>
       POST_multiple (workingBackend (twoByTwo (okReply [''f3.pdf'', ''f4.pdf''])))
          (Inr [pdf ''f1.pdf'', tooLarge ''f2.pdf'']) = (multipleError 400 m, [])"
proof -
  have "\<exists>f\<in>set [pdf ''f1.pdf'', tooLarge ''f2.pdf''].
      file_type f \<noteq> js ''application/pdf'' \<or> maxFileSize < file_size f"
    by (simp add: tooLarge_def maxFileSize_def)
  then show ?thesis by (rule invalid_submission_is_rejected_before_any_call)
qed

text \<open>
  When the inner block throws before any outcome is pushed (\<^verbatim>\<open>fetch\<close> throws, the body
  cannot be read or parsed, the answer is \<^verbatim>\<open>null\<close>, or \<^verbatim>\<open>results\<close> is no array),
  \<open>processBatch\<close> resolves with one failure for each file.
\<close>

lemma processBatch_failure_per_file:
  "tryFetch files r = (Some e, []) \<Longrightarrow>
   processBatch files r = Fulfilled (map (failedResult (failureReason e)) files)"
  by (simp add: processBatch_def)

text \<open>
  C10 (one outcome per file in every error case).  \<open>processBatch\<close> always resolves, but
  when an entry of the answer throws after earlier entries were mapped, the outcomes
  already pushed stay and the \<^verbatim>\<open>catch\<close> adds a failure for every file: for one file and
  the answer \<^verbatim>\<open>{success: true, results: [{...}, null]}\<close> it resolves with two outcomes.
\<close>

theorem processBatch_null_entry_gives_two_outcomes:
  "processBatch [pdf ''a.pdf''] nullEntryReply =
     Fulfilled [okResult ''a.pdf'',
                failedResult (js ''Cannot read properties of null (reading '' @ [39] @ js ''filename'' @ [39] @ js '')'')
                  (pdf ''a.pdf'')]"
  by (simp add: processBatch_def tryFetch_def nullEntryReply_def responseOk_def getProp_def
        mapFileResult_def thenE_def okEntry_def okResult_def jsOr_def toMillis_def failureReason_def
        isAbortError_def typeError_def messageOf_def js_def)

lemma mapFileResult_ok:
  "v \<noteq> JNull \<Longrightarrow> v \<noteq> JUndefined \<Longrightarrow> \<exists>r. mapFileResult v = Inr r"
  by (cases v) (simp_all add: mapFileResult_def getProp_def thenE_def)

lemma forEachResult_all:
  "list_all (\<lambda>v. v \<noteq> JNull \<and> v \<noteq> JUndefined) es \<Longrightarrow>
   \<exists>rs. forEachResult es acc = (None, acc @ rs) \<and> length rs = length es"
proof (induction es arbitrary: acc)
  case Nil
  then show ?case by simp
next
  case (Cons v es)
  then obtain r where r: "mapFileResult v = Inr r" using mapFileResult_ok[of v] by auto
  from Cons.prems have "list_all (\<lambda>v. v \<noteq> JNull \<and> v \<noteq> JUndefined) es" by simp
  from Cons.IH[OF this, of "acc @ [r]"]
  obtain rs where "forEachResult es (acc @ [r]) = (None, (acc @ [r]) @ rs)" "length rs = length es"
    by blast
  with r show ?case by (intro exI[of _ "r # rs"]) simp
qed

lemma length_failures [simp]: "length (unexpectedFormat files) = length files"
  by (simp add: unexpectedFormat_def)

lemma outcomes_per_file:
  assumes "answersEachFile files r"
  shows "length (settledResults files (processBatch files r)) = length files"
proof (cases r)
  case (FetchThrows e)
  then show ?thesis by (simp add: settled_processBatch tryFetch_def)
next
  case (Response st body parsed)
  show ?thesis
  proof (cases "responseOk st")
    case False
    with Response show ?thesis
      by (simp add: settled_processBatch tryFetch_def split: sum.splits)
  next
    case True
    show ?thesis
    proof (cases parsed)
      case (Inl e)
      with Response True show ?thesis by (simp add: settled_processBatch tryFetch_def)
    next
      case (Inr result)
      show ?thesis
      proof (cases result)
        case (JObj kvs)
        show ?thesis
        proof (cases "map_of kvs (js ''success'')")
          case None
          with Response True Inr JObj show ?thesis
            by (simp add: settled_processBatch tryFetch_def getProp_def)
        next
          case (Some ok)
          show ?thesis
          proof (cases "truthy ok")
            case False
            with Response True Inr JObj Some show ?thesis
              by (simp add: settled_processBatch tryFetch_def getProp_def)
          next
            case t: True
            show ?thesis
            proof (cases "map_of kvs (js ''results'')")
              case None
              with Response True Inr JObj Some t show ?thesis
                by (simp add: settled_processBatch tryFetch_def getProp_def)
            next
              case entries: (Some entries)
              show ?thesis
              proof (cases entries)
                case (JArr es)
                with assms Response True Inr JObj Some t entries
                have "length es = length files" "list_all (\<lambda>v. v \<noteq> JNull \<and> v \<noteq> JUndefined) es"
                  by (simp_all add: answersEachFile_def)
                with forEachResult_all[of es "[]"] obtain rs where
                  "forEachResult es [] = (None, rs)" "length rs = length files" by auto
                with Response True Inr JObj Some t entries JArr show ?thesis
                  by (simp add: settled_processBatch tryFetch_def getProp_def)
              qed (use Response True Inr JObj Some t entries in
                    \<open>simp_all add: settled_processBatch tryFetch_def getProp_def\<close>)
            qed
          qed
        qed
      qed (use Response True Inr in \<open>simp_all add: settled_processBatch tryFetch_def getProp_def\<close>)
    qed
  qed
qed

lemma length_concat_map:
  "(\<And>k. k < n \<Longrightarrow> length (f k) = length (xs ! k)) \<Longrightarrow> n = length xs \<Longrightarrow>
   length (concat (map f [0..<n])) = length (concat xs)"
proof (induction xs arbitrary: n f rule: rev_induct)
  case Nil
  then show ?case by simp
next
  case (snoc x xs)
  then obtain m where n: "n = Suc m" "m = length xs" by simp
  have "length (concat (map f [0..<m])) = length (concat xs)"
  proof (rule snoc.IH)
    fix k assume "k < m"
    with snoc.prems(1)[of k] n show "length (f k) = length (xs ! k)" by (simp add: nth_append)
  qed (rule n(2))
  moreover have "length (f m) = length x" using snoc.prems(1)[of m] n by simp
  ultimately show ?case using n by simp
qed

text \<open>
  C2, amended: for a valid request to a configured and healthy backend, and for any
  positive batch size and concurrency, the handler partitions the files into the ordered
  batches of that size and reports the outcomes of the batches in the order of the batches;
  when every reply answers each file of its batch, the report has exactly one outcome per
  file.
\<close>

theorem report_follows_batch_order:
  assumes "0 < B" and "0 < C" and "files \<noteq> []" and "validateFiles files = None"
    and "backendUrl env = Some url" and "url \<noteq> []" and "health env = Inr st" and "responseOk st"
    and "\<forall>k<length (chunks B files). answersEachFile (chunks B files ! k) (replies env k)"
  shows "createBatches B files 0 [] = Some (chunks B files) \<and> concat (chunks B files) = files \<and>
         (\<forall>b\<in>set (chunks B files). b \<noteq> [] \<and> length b \<le> B) \<and>
         (\<exists>resp calls rs.
             POST_with B C env (Inr files) = Some (resp, calls) \<and>
             results resp = Some rs \<and>
             rs = concat (map (\<lambda>k. settledResults (chunks B files ! k)
                                      (processBatch (chunks B files ! k) (replies env k)))
                              [0..<length (chunks B files)]) \<and>
             length rs = length files)"
proof -
  let ?F = "\<lambda>k. settledResults (chunks B files ! k) (processBatch (chunks B files ! k) (replies env k))"
  have "length (concat (map ?F [0..<length (chunks B files)])) = length (concat (chunks B files))"
    using assms(9) by (intro length_concat_map) (simp_all add: outcomes_per_file)
  then have len: "length (concat (map ?F [0..<length (chunks B files)])) = length files"
    by (simp add: concat_chunks[OF assms(1)])
  have "results (batchReport files (chunks B files) (concat (map ?F [0..<length (chunks B files)]))) =
        Some (concat (map ?F [0..<length (chunks B files)]))"
    by (simp add: batchReport_def Let_def)
  with len POST_with_runs[OF assms(1-8)] createBatches_chunks[OF assms(1), of files 0 "[]"]
    concat_chunks[OF assms(1), of files] chunks_sizes[of _ B files]
  show ?thesis by simp
qed

lemmas batch_eval =
  processBatch_def tryFetch_def responseOk_def getProp_def mapFileResult_def thenE_def okEntry_def
  okResult_def okReply_def jsOr_def toMillis_def failureReason_def isAbortError_def typeError_def
  messageOf_def settledResults_def failedResult_def

lemma chunks_two_five:
  "chunks 2 fiveFiles = [[pdf ''f1.pdf'', pdf ''f2.pdf''], [pdf ''f3.pdf'', pdf ''f4.pdf''], [pdf ''f5.pdf'']]"
  by (simp add: fiveFiles_def chunks_Cons)

lemma validateFiles_five: "validateFiles fiveFiles = None"
  by (simp add: fiveFiles_def pdf_def maxFileSize_def)

theorem report_follows_batch_order_witness:
  "map_option (results \<circ> fst)
     (POST_with 2 2 (workingBackend (twoByTwo (okReply [''f3.pdf'', ''f4.pdf'']))) (Inr fiveFiles)) =
   Some (Some (map okResult [''f1.pdf'', ''f2.pdf'', ''f3.pdf'', ''f4.pdf'', ''f5.pdf'']))"
proof -
  let ?env = "workingBackend (twoByTwo (okReply [''f3.pdf'', ''f4.pdf'']))"
  have answers: "\<forall>k<length (chunks 2 fiveFiles). answersEachFile (chunks 2 fiveFiles ! k) (replies ?env k)"
    unfolding chunks_two_five
    by (simp add: less_Suc_eq numeral_3_eq_3 workingBackend_def twoByTwo_def answersEachFile_def okReply_def
          okEntry_def responseOk_def js_def)
  have "(0::nat) < 2" "fiveFiles \<noteq> []" "backendUrl ?env = Some (js ''https://api.example'')"
    "js ''https://api.example'' \<noteq> []" "health ?env = Inr 200" "responseOk 200"
    by (simp_all add: fiveFiles_def workingBackend_def js_def responseOk_def)
  from report_follows_batch_order[OF this(1) this(1) this(2) validateFiles_five this(3-6) answers]
  obtain resp calls rs where
    post: "POST_with 2 2 ?env (Inr fiveFiles) = Some (resp, calls)" and
    res: "results resp = Some rs" and
    rs: "rs = concat (map (\<lambda>k. settledResults (chunks 2 fiveFiles ! k)
                     (processBatch (chunks 2 fiveFiles ! k) (replies ?env k)))
                 [0..<length (chunks 2 fiveFiles)])"
    by blast
  have "rs = map okResult [''f1.pdf'', ''f2.pdf'', ''f3.pdf'', ''f4.pdf'', ''f5.pdf'']"
    unfolding rs chunks_two_five
    by (simp add: workingBackend_def twoByTwo_def batch_eval js_def pdf_def)
  with post res show ?thesis by simp
qed

text \<open>
  C2 as stated fails: the report holds what the backend's answer holds, and for one file
  and an answer with an empty \<^verbatim>\<open>results\<close> array it has no entry.
\<close>

theorem empty_answer_gives_empty_report:
  "map_option (results \<circ> fst) (POST (workingBackend (always (okReply []))) (Inr [pdf ''f1.pdf''])) =
   Some (Some [])"
proof -
  let ?env = "workingBackend (always (okReply []))"
  have "(0::nat) < BATCH_SIZE" "0 < MAX_CONCURRENT_BATCHES" "[pdf ''f1.pdf''] \<noteq> []"
    "validateFiles [pdf ''f1.pdf''] = None" "backendUrl ?env = Some (js ''https://api.example'')"
    "js ''https://api.example'' \<noteq> []" "health ?env = Inr 200" "responseOk 200"
    by (simp_all add: BATCH_SIZE_def MAX_CONCURRENT_BATCHES_def workingBackend_def js_def responseOk_def
          pdf_def maxFileSize_def)
  note run = POST_with_runs[OF this]
  have c: "chunks BATCH_SIZE [pdf ''f1.pdf''] = [[pdf ''f1.pdf'']]"
    by (simp add: BATCH_SIZE_def chunks_Cons)
  show ?thesis
    unfolding POST_def run c
    by (simp add: batchReport_def Let_def workingBackend_def always_def batch_eval js_def)
qed





end
